theory Spec2Isabelle
  imports Complex_Main
begin

section \<open>Timelapse assembly: a model of \<open>videoProcessing.ts\<close>\<close>

text \<open>
  The development follows \<open>apps/web/src/client/videoProcessing.ts\<close>. JavaScript numbers
  that carry media time (timestamps, durations, the running offset) are read as reals, so
  the rounding of floating-point arithmetic is left out; pixel dimensions and capture
  times in milliseconds are naturals and integers. Everything
  the browser and the media library decide (which track a blob holds, which codec can be
  encoded, what the finalized buffer is) is a field of an environment record, so that the
  functions below compute exactly what the source computes from those answers. The
  environment answers every call of \<open>videoConcat\<close>: a call into the media library that
  rejects instead ends the run there, and is not among the outcomes below.
\<close>

subsection \<open>Shared constants (\<open>shared/constants.ts\<close>)\<close>

definition TIMELAPSE_FRAME_LENGTH_MS :: real where
  "TIMELAPSE_FRAME_LENGTH_MS = 2.5 * 1000"

definition TIMELAPSE_FPS :: real where
  "TIMELAPSE_FPS = 24"

definition THUMBNAIL_SIZE :: nat where
  "THUMBNAIL_SIZE = 640"

subsection \<open>Data\<close>

type_synonym blob = "nat list"

type_synonym buffer = "nat list"

text \<open>An encoded packet or a decoded sample: the two fields the loops read and rewrite,
  and the payload they carry along unchanged.\<close>

record media_unit =
  timestamp :: real
  duration :: real
  payload :: nat

text \<open>What the source reads from an \<open>InputVideoTrack\<close>: the five fields compared for
  remuxing, the result of \<open>getDecoderConfig()\<close>, the sequences the two sinks iterate, and
  the three answers the thumbnail code asks for.\<close>

record track =
  codec :: "string option"
  codedWidth :: nat
  codedHeight :: nat
  displayWidth :: nat
  displayHeight :: nat
  decoderConfig :: "nat option"
  packets :: "media_unit list"
  samples :: "media_unit list"
  canDecode :: bool
  firstTimestamp :: real
  computeDuration :: real

datatype video_source =
    EncodedVideoPacketSource "string option"
  | VideoSampleSource string

datatype warning =
    NullPrimaryTrack
  | ZeroDurationPacket media_unit
  | ZeroDurationSample media_unit

text \<open>One constructor per \<open>throw\<close> and per \<open>assert\<close> of the assembly code.\<close>

datatype error =
    NoChunks
  | EmptySegmentation
  | NoInputs
  | NoPrimaryTracks
  | NoVideoEncoding
  | NoDecoderConfig
  | SourceNotPacketSource
  | SourceNotSampleSource
  | BufferNull

record environment =
  getPrimaryVideoTrack :: "blob \<Rightarrow> track option"
  getSupportedVideoCodecs :: "string list"
  getFirstEncodableVideoCodec :: "string list \<Rightarrow> nat \<Rightarrow> nat \<Rightarrow> string option"
  finalizedBuffer :: "video_source \<Rightarrow> media_unit list \<Rightarrow> buffer option"

text \<open>The observable effects of one run of \<open>videoConcat\<close>: the inputs created (by index),
  the warnings logged, whether the user was alerted, the source added to the output, the
  units added to that source (one list per input processed, in order), the running offset,
  and which inputs were disposed.\<close>

record run_state =
  opened :: "nat list"
  warnings :: "warning list"
  alerted :: bool
  videoTrack :: "video_source option"
  globalTimeOffset :: real
  emitted :: "media_unit list list"
  finalized :: bool
  disposed :: "nat list"

definition initial_state :: run_state where
  "initial_state = \<lparr>opened = [], warnings = [], alerted = False, videoTrack = None,
     globalTimeOffset = 0, emitted = [], finalized = False, disposed = []\<rparr>"

subsection \<open>Time rebasing\<close>

definition timeScale :: real where
  "timeScale = (1000 / TIMELAPSE_FRAME_LENGTH_MS) / TIMELAPSE_FPS"

text \<open>The variables of one pass over a sink: \<open>localFirstTimestamp\<close>,
  \<open>localLastTimestamp\<close>, the units handed to \<open>source.add\<close>, and the warnings logged.\<close>

record loop_state =
  localFirstTimestamp :: "real option"
  localLastTimestamp :: real
  added :: "media_unit list"
  skipped :: "warning list"

definition loop_init :: loop_state where
  "loop_init = \<lparr>localFirstTimestamp = None, localLastTimestamp = 0, added = [], skipped = []\<rparr>"

text \<open>The body of \<open>for await (const packet of sink.packets())\<close> and of
  \<open>for await (const sample of sink.samples())\<close>: the two loops differ in the sink they
  read and in the warning they log, which \<open>canRemux\<close> selects here.\<close>

fun rebaseUnits :: "bool \<Rightarrow> real \<Rightarrow> media_unit list \<Rightarrow> loop_state \<Rightarrow> loop_state" where
  "rebaseUnits canRemux g [] ls = ls"
| "rebaseUnits canRemux g (u # us) ls =
     (if duration u = 0 then
        rebaseUnits canRemux g us
          (ls\<lparr>skipped := skipped ls @
                [if canRemux then ZeroDurationPacket u else ZeroDurationSample u]\<rparr>)
      else
        let origTimestamp = timestamp u;
            first = (case localFirstTimestamp ls of None \<Rightarrow> origTimestamp | Some f \<Rightarrow> f);
            relTimestamp = origTimestamp - first
        in rebaseUnits canRemux g us
             (ls\<lparr>localFirstTimestamp := Some first,
                 added := added ls @
                   [u\<lparr>timestamp := (relTimestamp * timeScale) + g,
                      duration := duration u * timeScale\<rparr>],
                 localLastTimestamp := origTimestamp\<rparr>))"

fun isPacketSource :: "video_source \<Rightarrow> bool" where
  "isPacketSource (EncodedVideoPacketSource c) = True"
| "isPacketSource (VideoSampleSource c) = False"

text \<open>One iteration of \<open>for (const video of inputPrimaryTracks)\<close>.\<close>

definition processInput ::
  "bool \<Rightarrow> video_source \<Rightarrow> track \<Rightarrow> run_state \<Rightarrow> error option \<times> run_state" where
  "processInput canRemux source video st =
     (if decoderConfig video = None then (Some NoDecoderConfig, st)
      else if canRemux then
        (if \<not> isPacketSource source then (Some SourceNotPacketSource, st)
         else
           let ls = rebaseUnits True (globalTimeOffset st) (packets video) loop_init
           in (None, st\<lparr>warnings := warnings st @ skipped ls,
                        emitted := emitted st @ [added ls],
                        globalTimeOffset :=
                          (case localFirstTimestamp ls of
                             None \<Rightarrow> globalTimeOffset st
                           | Some f \<Rightarrow> globalTimeOffset st + (localLastTimestamp ls - f) * timeScale)\<rparr>))
      else
        (if isPacketSource source then (Some SourceNotSampleSource, st)
         else
           let ls = rebaseUnits False (globalTimeOffset st) (samples video) loop_init
           in (None, st\<lparr>warnings := warnings st @ skipped ls,
                        emitted := emitted st @ [added ls],
                        globalTimeOffset :=
                          (case localFirstTimestamp ls of
                             None \<Rightarrow> globalTimeOffset st
                           | Some f \<Rightarrow> globalTimeOffset st + (localLastTimestamp ls - f) * timeScale)\<rparr>)))"

fun processInputs ::
  "bool \<Rightarrow> video_source \<Rightarrow> track list \<Rightarrow> run_state \<Rightarrow> error option \<times> run_state" where
  "processInputs canRemux source [] st = (None, st)"
| "processInputs canRemux source (video # rest) st =
     (case processInput canRemux source video st of
        (Some e, st') \<Rightarrow> (Some e, st')
      | (None, st') \<Rightarrow> processInputs canRemux source rest st')"

subsection \<open>\<open>videoConcat\<close>\<close>

text \<open>The tracks that survive the \<open>filter\<close> on \<open>getPrimaryVideoTrack()\<close>, in input order.\<close>

definition inputPrimaryTracks :: "environment \<Rightarrow> blob list \<Rightarrow> track list" where
  "inputPrimaryTracks env streams =
     List.map_filter (\<lambda>x. x) (map (getPrimaryVideoTrack env) streams)"

definition nullTrackWarnings :: "environment \<Rightarrow> blob list \<Rightarrow> warning list" where
  "nullTrackWarnings env streams =
     map (\<lambda>x. NullPrimaryTrack) (filter (\<lambda>x. x = None) (map (getPrimaryVideoTrack env) streams))"

text \<open>The predicate of \<open>inputPrimaryTracks.every(...)\<close>.\<close>

definition canRemux :: "track \<Rightarrow> track list \<Rightarrow> bool" where
  "canRemux firstTrack tracks =
     list_all (\<lambda>x. codec firstTrack = codec x \<and>
                   codedWidth firstTrack = codedWidth x \<and>
                   codedHeight firstTrack = codedHeight x \<and>
                   displayWidth firstTrack = displayWidth x \<and>
                   displayHeight firstTrack = displayHeight x) tracks"

text \<open>\<open>!videoCodec\<close>: \<open>null\<close> and the empty string are the falsy values of the type.\<close>

definition falsy :: "string option \<Rightarrow> bool" where
  "falsy c = (c = None \<or> c = Some [])"

definition videoConcat :: "environment \<Rightarrow> blob list \<Rightarrow> (error + buffer) \<times> run_state" where
  "videoConcat env streams =
     (let st0 = initial_state\<lparr>opened := [0 ..< length streams]\<rparr>
      in if \<not> length streams > 0 then (Inl NoInputs, st0)
      else
        let tracks = inputPrimaryTracks env streams;
            st1 = st0\<lparr>warnings := nullTrackWarnings env streams\<rparr>
        in if \<not> length tracks \<noteq> 0 then (Inl NoPrimaryTracks, st1)
        else
          let firstTrack = hd tracks;
              supportedCodecs = getSupportedVideoCodecs env;
              videoCodec = getFirstEncodableVideoCodec env supportedCodecs
                             (codedWidth firstTrack) (codedHeight firstTrack)
          in if falsy videoCodec then (Inl NoVideoEncoding, st1\<lparr>alerted := True\<rparr>)
          else
            let remux = canRemux firstTrack tracks;
                source = (if remux then EncodedVideoPacketSource (codec (hd tracks))
                          else VideoSampleSource (the videoCodec));
                st2 = st1\<lparr>videoTrack := Some source\<rparr>
            in case processInputs remux source tracks st2 of
                 (Some e, st3) \<Rightarrow> (Inl e, st3)
               | (None, st3) \<Rightarrow>
                   let st4 = st3\<lparr>finalized := True, disposed := [0 ..< length streams]\<rparr>
                   in (case finalizedBuffer env source (concat (emitted st4)) of
                         None \<Rightarrow> (Inl BufferNull, st4)
                       | Some b \<Rightarrow> (Inr b, st4)))"

subsection \<open>\<open>mergeVideoSessions\<close>\<close>

text \<open>Modelled from the spec: the type \<open>LocalTimelapse\<close> and the type of its chunks, which
  \<open>videoProcessing.ts\<close> imports from \<open>client/deviceStorage\<close>. A chunk is a fragment of
  encoded media tagged with its session and with its capture time in milliseconds; the
  recorder page (\<open>pages/timelapse/create.tsx\<close>) numbers a session by \<open>Date.now()\<close>, so a
  session is a natural number here. The field \<open>timestamp\<close> of a chunk is written
  \<open>chunk_timestamp\<close>, apart from the \<open>timestamp\<close> of a packet.\<close>

record chunk =
  session :: nat
  chunk_timestamp :: int
  data :: "nat list"

text \<open>\<open>Object.groupBy\<close>: one group per key, keys in order of first appearance, each
  group in the order of the collection.\<close>

fun addToGroup :: "'k \<Rightarrow> 'a \<Rightarrow> ('k \<times> 'a list) list \<Rightarrow> ('k \<times> 'a list) list" where
  "addToGroup k x [] = [(k, [x])]"
| "addToGroup k x ((k', xs) # gs) =
     (if k = k' then (k', xs @ [x]) # gs else (k', xs) # addToGroup k x gs)"

definition groupBy :: "('a \<Rightarrow> 'k) \<Rightarrow> 'a list \<Rightarrow> ('k \<times> 'a list) list" where
  "groupBy f xs = foldl (\<lambda>gs x. addToGroup (f x) x gs) [] xs"

text \<open>\<open>Object.entries\<close> lists the keys that are array indices first, in ascending numeric
  order, and then the other keys in the order they were created. A session number becomes
  the property key of its decimal string, which is an array index below \<open>2\<^sup>3\<^sup>2 - 1\<close>.\<close>

definition isArrayIndex :: "nat \<Rightarrow> bool" where
  "isArrayIndex k = (k < 2 ^ 32 - 1)"

definition objectEntries :: "(nat \<times> 'a) list \<Rightarrow> (nat \<times> 'a) list" where
  "objectEntries gs =
     sort_key fst (filter (\<lambda>g. isArrayIndex (fst g)) gs) @
     filter (\<lambda>g. \<not> isArrayIndex (fst g)) gs"

text \<open>The expression bound to \<open>segmented\<close>. \<open>ascending(x => x.timestamp)\<close> compares two
  chunks by the difference of their timestamps and \<open>toSorted\<close> is stable; the middle
  \<open>filter(x => x[1])\<close> keeps every entry, a group being an array.\<close>

definition segmented :: "chunk list \<Rightarrow> (nat \<times> chunk list) list" where
  "segmented chunks =
     map (\<lambda>x. (fst x, sort_key chunk_timestamp (snd x)))
       (filter (\<lambda>x. True) (objectEntries (groupBy session chunks)))"

text \<open>One blob per session: the data of its chunks, concatenated in order.\<close>

definition streamsOf :: "(nat \<times> chunk list) list \<Rightarrow> blob list" where
  "streamsOf seg = map (\<lambda>x. concat (map data (snd x))) seg"

definition mergeVideoSessions :: "environment \<Rightarrow> chunk list \<Rightarrow> (error + buffer) \<times> run_state" where
  "mergeVideoSessions env chunks =
     (if length chunks = 0 then (Inl NoChunks, initial_state)
      else
        let seg = segmented chunks
        in if length seg = 0 then (Inl EmptySegmentation, initial_state)
        else videoConcat env (streamsOf seg))"

subsection \<open>Thumbnails\<close>

datatype picture = Blank | Filled string | Frame blob

record canvas =
  width :: int
  height :: int
  picture :: picture

datatype canvas_kind = HTMLCanvasElement | OffscreenCanvas | OtherCanvas

record wrapped_canvas =
  kind :: canvas_kind
  canvas :: canvas

text \<open>A thumbnail blob is the JPEG encoding of a canvas, or the empty \<open>image/jpeg\<close> blob
  that \<open>getBlackImage\<close> builds from \<open>new Uint8Array(0)\<close>.\<close>

datatype image_blob = Jpeg canvas | EmptyJpeg

datatype thumb_error =
    NoVideoTrack
  | UnsupportedCodec
  | SinkFailed
  | NoCanvasAtFirstTimestamp
  | ToBlobNull
  | ConvertToBlobFailed
  | VideoLoadFailed
  | No2DContext
  | FallbackToBlobNull

text \<open>The answers of the browser and of the media library to the thumbnail code:
  \<open>canvasesAtTimestamps\<close> yields the wrapped canvases (or \<open>null\<close>) for the timestamps asked,
  or fails while decoding; \<open>toBlob\<close> and \<open>convertToBlob\<close> say whether a canvas could be
  encoded; \<open>loadedVideo\<close> is the size of the video element once \<open>loadeddata\<close> fires,
  \<open>None\<close> when \<open>error\<close> fires instead; \<open>context2d\<close> says whether \<open>getContext("2d")\<close>
  returns a context.\<close>

record thumb_env =
  primaryVideoTrack :: "blob \<Rightarrow> track option"
  devicePixelRatio :: real
  canvasesAtTimestamps ::
    "track \<Rightarrow> int \<Rightarrow> int \<Rightarrow> real list \<Rightarrow> thumb_error + wrapped_canvas option list"
  toBlob :: "canvas \<Rightarrow> bool"
  convertToBlob :: "canvas \<Rightarrow> bool"
  loadedVideo :: "blob \<Rightarrow> (nat \<times> nat) option"
  context2d :: bool

text \<open>The local \<open>dimension\<close> of both extraction tiers. The sizes of a track that the
  library reports are positive, so the quotient is never \<open>0 / 0\<close>. The products with
  \<open>devicePixelRatio\<close> are taken over the reals, where the code rounds them to doubles
  before \<open>Math.floor\<close>: the two can differ by one pixel.\<close>

definition dimension :: "nat \<Rightarrow> nat \<Rightarrow> int" where
  "dimension d1 d2 =
     (if d1 > d2 then int THUMBNAIL_SIZE
      else \<lfloor>real THUMBNAIL_SIZE * real d1 / real d2\<rfloor>)"

definition firstCanvas :: "wrapped_canvas option list \<Rightarrow> wrapped_canvas option" where
  "firstCanvas canvases = (if length canvases > 0 then hd canvases else None)"

definition makeThumbnail :: "thumb_env \<Rightarrow> blob \<Rightarrow> thumb_error + image_blob" where
  "makeThumbnail env videoBlob =
     (case primaryVideoTrack env videoBlob of
        None \<Rightarrow> Inl NoVideoTrack
      | Some video \<Rightarrow>
          if codec video = None \<or> \<not> canDecode video then Inl UnsupportedCodec
          else
            let width = dimension (displayWidth video) (displayHeight video);
                height = dimension (displayHeight video) (displayWidth video);
                w = \<lfloor>real_of_int width * devicePixelRatio env\<rfloor>;
                h = \<lfloor>real_of_int height * devicePixelRatio env\<rfloor>;
                begin = firstTimestamp video;
                end = computeDuration video;
                chosen =
                  (case canvasesAtTimestamps env video w h [begin + (end - begin) / 2] of
                     Inl e \<Rightarrow> Inl e
                   | Inr canvases \<Rightarrow>
                       (case firstCanvas canvases of
                          Some c \<Rightarrow> Inr c
                        | None \<Rightarrow>
                            (case canvasesAtTimestamps env video w h [begin] of
                               Inl e \<Rightarrow> Inl e
                             | Inr canvases' \<Rightarrow>
                                 (case firstCanvas canvases' of
                                    Some c \<Rightarrow> Inr c
                                  | None \<Rightarrow> Inl NoCanvasAtFirstTimestamp))))
            in case chosen of
                 Inl e \<Rightarrow> Inl e
               | Inr thumbCanvas \<Rightarrow>
                   if kind thumbCanvas = HTMLCanvasElement then
                     (if toBlob env (canvas thumbCanvas) then Inr (Jpeg (canvas thumbCanvas))
                      else Inl ToBlobNull)
                   else
                     (if convertToBlob env (canvas thumbCanvas)
                      then Inr (Jpeg (canvas thumbCanvas))
                      else Inl ConvertToBlobFailed))"

definition makeFallbackThumbnail :: "thumb_env \<Rightarrow> blob \<Rightarrow> thumb_error + image_blob" where
  "makeFallbackThumbnail env videoBlob =
     (case loadedVideo env videoBlob of
        None \<Rightarrow> Inl VideoLoadFailed
      | Some (videoWidth, videoHeight) \<Rightarrow>
          let width = dimension videoWidth videoHeight;
              height = dimension videoHeight videoWidth;
              c = \<lparr>width = \<lfloor>real_of_int width * devicePixelRatio env\<rfloor>,
                   height = \<lfloor>real_of_int height * devicePixelRatio env\<rfloor>,
                   picture = Blank\<rparr>
          in if \<not> context2d env then Inl No2DContext
             else
               let drawn = c\<lparr>picture := Frame videoBlob\<rparr>
               in if toBlob env drawn then Inr (Jpeg drawn) else Inl FallbackToBlobNull)"

definition getBlackImage :: "thumb_env \<Rightarrow> thumb_error + image_blob" where
  "getBlackImage env =
     (let c = \<lparr>width = int THUMBNAIL_SIZE, height = int THUMBNAIL_SIZE, picture = Blank\<rparr>;
          c' = (if context2d env then c\<lparr>picture := Filled ''#000000''\<rparr> else c)
      in if \<not> toBlob env c' then Inr EmptyJpeg else Inr (Jpeg c'))"

datatype tier = Primary | Fallback | LastResort

text \<open>\<open>videoGenerateThumbnail\<close>, with the tiers it called, in the order of the calls.\<close>

definition videoGenerateThumbnail ::
  "thumb_env \<Rightarrow> blob \<Rightarrow> tier list \<times> (thumb_error + image_blob)" where
  "videoGenerateThumbnail env videoBlob =
     (case makeThumbnail env videoBlob of
        Inr b \<Rightarrow> ([Primary], Inr b)
      | Inl error1 \<Rightarrow>
          (case makeFallbackThumbnail env videoBlob of
             Inr b \<Rightarrow> ([Primary, Fallback], Inr b)
           | Inl error2 \<Rightarrow> ([Primary, Fallback, LastResort], getBlackImage env)))"

subsection \<open>Vocabulary of the statements\<close>

text \<open>The units of a sequence that are not skipped, the sequence a run iterates for a
  track, and the rewriting of one unit against an anchor and an offset.\<close>

definition emittable :: "media_unit list \<Rightarrow> media_unit list" where
  "emittable us = filter (\<lambda>u. duration u \<noteq> 0) us"

definition unitsOf :: "bool \<Rightarrow> track \<Rightarrow> media_unit list" where
  "unitsOf remux video = (if remux then packets video else samples video)"

definition rebased :: "real \<Rightarrow> real \<Rightarrow> media_unit \<Rightarrow> media_unit" where
  "rebased anchor g u =
     u\<lparr>timestamp := (timestamp u - anchor) * timeScale + g, duration := duration u * timeScale\<rparr>"

text \<open>The value of \<open>globalTimeOffset\<close> after a pass over \<open>us\<close> that began at \<open>g\<close>.\<close>

definition advance :: "real \<Rightarrow> media_unit list \<Rightarrow> real" where
  "advance g us =
     (if emittable us = [] then g
      else g + (timestamp (last (emittable us)) - timestamp (hd (emittable us))) * timeScale)"

definition zeroDurationWarning :: "bool \<Rightarrow> media_unit \<Rightarrow> warning" where
  "zeroDurationWarning remux u = (if remux then ZeroDurationPacket u else ZeroDurationSample u)"

text \<open>A track, and an environment, with every zero-duration unit taken away.\<close>

definition withoutZeroDuration :: "track \<Rightarrow> track" where
  "withoutZeroDuration video =
     video\<lparr>packets := emittable (packets video), samples := emittable (samples video)\<rparr>"

definition withoutZeroDurationEnv :: "environment \<Rightarrow> environment" where
  "withoutZeroDurationEnv env =
     env\<lparr>getPrimaryVideoTrack := (\<lambda>b. map_option withoutZeroDuration (getPrimaryVideoTrack env b))\<rparr>"

text \<open>Two consecutive sessions of the output meet: the first unit of the later one carries
  the timestamp of the last unit of the earlier one.\<close>

definition joined :: "media_unit list \<Rightarrow> media_unit list \<Rightarrow> bool" where
  "joined a b = (timestamp (hd b) = timestamp (last a))"

text \<open>Invariants of the loop over the inputs: the sessions emitted so far meet, their
  timestamps are in order, and the running offset is the timestamp of the last unit
  emitted.\<close>

definition chained :: "run_state \<Rightarrow> bool" where
  "chained st =
     (successively joined (filter (\<lambda>l. l \<noteq> []) (emitted st)) \<and>
      (concat (emitted st) \<noteq> [] \<longrightarrow> globalTimeOffset st = timestamp (last (concat (emitted st)))))"

definition ordered :: "run_state \<Rightarrow> bool" where
  "ordered st =
     (sorted (map timestamp (concat (emitted st))) \<and>
      (concat (emitted st) \<noteq> [] \<longrightarrow> globalTimeOffset st = timestamp (last (concat (emitted st)))))"

text \<open>The state of a run once the tracks have been probed.\<close>

definition probed :: "environment \<Rightarrow> blob list \<Rightarrow> run_state" where
  "probed env streams =
     initial_state\<lparr>opened := [0 ..< length streams], warnings := nullTrackWarnings env streams\<rparr>"

text \<open>The codec \<open>videoConcat\<close> negotiates for a list of surviving tracks.\<close>

definition negotiatedCodec :: "environment \<Rightarrow> track list \<Rightarrow> string option" where
  "negotiatedCodec env tracks =
     getFirstEncodableVideoCodec env (getSupportedVideoCodecs env)
       (codedWidth (hd tracks)) (codedHeight (hd tracks))"

definition chosenSource :: "environment \<Rightarrow> track list \<Rightarrow> video_source" where
  "chosenSource env tracks =
     (if canRemux (hd tracks) tracks then EncodedVideoPacketSource (codec (hd tracks))
      else VideoSampleSource (the (negotiatedCodec env tracks)))"


text \<open>The keys of a collection in the order of their first appearance.\<close>

fun firstSeen :: "'k list \<Rightarrow> 'k list" where
  "firstSeen [] = []"
| "firstSeen (k # ks) = k # removeAll k (firstSeen ks)"

text \<open>The surviving tracks of the sessions of a chunk collection.\<close>

definition sessionTracks :: "environment \<Rightarrow> chunk list \<Rightarrow> track list" where
  "sessionTracks env chunks = inputPrimaryTracks env (streamsOf (segmented chunks))"

text \<open>Two states with the same units emitted and the same running offset.\<close>

definition sameTimeline :: "run_state \<Rightarrow> run_state \<Rightarrow> bool" where
  "sameTimeline s s' = (emitted s' = emitted s \<and> globalTimeOffset s' = globalTimeOffset s)"

subsection \<open>Example inputs\<close>

definition unit_at :: "real \<Rightarrow> real \<Rightarrow> media_unit" where
  "unit_at t d = \<lparr>timestamp = t, duration = d, payload = 0\<rparr>"

text \<open>A 1920 by 1080 AVC track with a decoder configuration, whose packets and samples
  are the given units.\<close>

definition example_track :: "media_unit list \<Rightarrow> track" where
  "example_track us =
     \<lparr>codec = Some ''avc'', codedWidth = 1920, codedHeight = 1080, displayWidth = 1920,
      displayHeight = 1080, decoderConfig = Some 0, packets = us, samples = us,
      canDecode = True, firstTimestamp = 0, computeDuration = 0\<rparr>"

text \<open>An environment that reads tracks as \<open>f\<close> says, encodes the first supported codec
  and finalizes into a buffer with one byte per unit.\<close>

definition example_env :: "(blob \<Rightarrow> track option) \<Rightarrow> environment" where
  "example_env f =
     \<lparr>getPrimaryVideoTrack = f,
      getSupportedVideoCodecs = [''avc'', ''vp9''],
      getFirstEncodableVideoCodec = (\<lambda>cs w h. case cs of [] \<Rightarrow> None | c # _ \<Rightarrow> Some c),
      finalizedBuffer = (\<lambda>src us. Some (map payload us))\<rparr>"

text \<open>Two sessions: blob \<open>[1]\<close> holds two units, blob \<open>[2]\<close> holds one.\<close>

definition two_sessions :: "blob \<Rightarrow> track option" where
  "two_sessions b =
     (if b = [1] then Some (example_track [unit_at 0 1, unit_at 1 1])
      else if b = [2] then Some (example_track [unit_at 0 1])
      else None)"

text \<open>A session whose first packet has no duration.\<close>

definition zero_first :: "blob \<Rightarrow> track option" where
  "zero_first b = (if b = [1] then Some (example_track [unit_at 5 0, unit_at 10 1]) else None)"

text \<open>Two sessions of ten units each, 2500 apart.\<close>

definition scenario_units :: "media_unit list" where
  "scenario_units =
     map (\<lambda>i. \<lparr>timestamp = 2500 * real i, duration = 2500, payload = i\<rparr>)
       [0, 1, 2, 3, 4, 5, 6, 7, 8, 9]"

definition scenario_A :: "blob \<Rightarrow> track option" where
  "scenario_A b =
     (if b = [1] \<or> b = [2] then Some (example_track scenario_units) else None)"


text \<open>An environment in which no codec can be encoded.\<close>

definition no_encoder_env :: "(blob \<Rightarrow> track option) \<Rightarrow> environment" where
  "no_encoder_env f = (example_env f)\<lparr>getFirstEncodableVideoCodec := (\<lambda>cs w h. None)\<rparr>"

text \<open>Blobs without a video track.\<close>

definition no_tracks :: "blob \<Rightarrow> track option" where
  "no_tracks b = None"

text \<open>Two sessions with the same parameters; the first has no decoder configuration.\<close>

definition missing_config :: "blob \<Rightarrow> track option" where
  "missing_config b =
     (if b = [1] then Some ((example_track [unit_at 0 1])\<lparr>decoderConfig := None\<rparr>)
      else if b = [2] then Some (example_track [unit_at 0 1])
      else None)"



text \<open>Chunks of two sessions whose numbers are times in milliseconds, as \<open>Date.now()\<close>
  yields them: in the order of capture, and with the later session listed first.\<close>

definition chunks_in_order :: "chunk list" where
  "chunks_in_order =
     [\<lparr>session = 1700000000001, chunk_timestamp = 100, data = [1]\<rparr>,
      \<lparr>session = 1700000000001, chunk_timestamp = 200, data = [2]\<rparr>,
      \<lparr>session = 1700000000002, chunk_timestamp = 300, data = [3]\<rparr>]"

definition chunks_later_first :: "chunk list" where
  "chunks_later_first =
     [\<lparr>session = 1700000000002, chunk_timestamp = 300, data = [3]\<rparr>,
      \<lparr>session = 1700000000001, chunk_timestamp = 200, data = [2]\<rparr>,
      \<lparr>session = 1700000000001, chunk_timestamp = 100, data = [1]\<rparr>]"

text \<open>The first session has a track, the second has none.\<close>

definition one_trackless :: "blob \<Rightarrow> track option" where
  "one_trackless b =
     (if b = [1, 2] then Some (example_track [unit_at 0 1, unit_at 1 1]) else None)"

text \<open>Every blob holds a track without a decoder configuration.\<close>

definition unconfigured :: "blob \<Rightarrow> track option" where
  "unconfigured b = Some ((example_track [unit_at 0 1])\<lparr>decoderConfig := None\<rparr>)"

text \<open>A browser in which no video can be opened, with and without a working JPEG
  encoder for canvases.\<close>

definition broken_browser :: "bool \<Rightarrow> thumb_env" where
  "broken_browser encodes =
     \<lparr>primaryVideoTrack = (\<lambda>b. None),
      devicePixelRatio = 1,
      canvasesAtTimestamps = (\<lambda>video w h ts. Inl SinkFailed),
      toBlob = (\<lambda>c. encodes),
      convertToBlob = (\<lambda>c. encodes),
      loadedVideo = (\<lambda>b. None),
      context2d = True\<rparr>"

section \<open>Properties\<close>

subsection \<open>The rebasing loop\<close>

lemma timeScale_value: "timeScale = 1 / 60"
  by (simp add: timeScale_def TIMELAPSE_FRAME_LENGTH_MS_def TIMELAPSE_FPS_def)

lemma timeScale_pos: "0 < timeScale"
  by (simp add: timeScale_value)

lemma rebase_skipped:
  "skipped (rebaseUnits cr g us ls) =
     skipped ls @ map (zeroDurationWarning cr) (filter (\<lambda>u. duration u = 0) us)"
  by (induction us arbitrary: ls) (auto simp: Let_def zeroDurationWarning_def)

lemma rebase_first:
  "localFirstTimestamp (rebaseUnits cr g us ls) =
     (case localFirstTimestamp ls of
        Some f \<Rightarrow> Some f
      | None \<Rightarrow> (case emittable us of [] \<Rightarrow> None | v # _ \<Rightarrow> Some (timestamp v)))"
  by (induction us arbitrary: ls) (auto simp: Let_def emittable_def split: option.splits list.splits)

lemma rebase_last:
  "localLastTimestamp (rebaseUnits cr g us ls) =
     (if emittable us = [] then localLastTimestamp ls else timestamp (last (emittable us)))"
  by (induction us arbitrary: ls) (auto simp: Let_def emittable_def)

lemma rebase_added:
  "added (rebaseUnits cr g us ls) =
     added ls @
     map (rebased (case localFirstTimestamp ls of Some f \<Rightarrow> f | None \<Rightarrow> timestamp (hd (emittable us))) g)
       (emittable us)"
  by (induction us arbitrary: ls) (auto simp: Let_def emittable_def rebased_def split: option.splits)

lemma rebase_init_added:
  "added (rebaseUnits cr g us loop_init) =
     map (rebased (timestamp (hd (emittable us))) g) (emittable us)"
  by (simp add: rebase_added loop_init_def)

lemma rebase_init_first:
  "localFirstTimestamp (rebaseUnits cr g us loop_init) =
     (if emittable us = [] then None else Some (timestamp (hd (emittable us))))"
  by (simp add: rebase_first loop_init_def split: list.splits)

lemma rebase_init_skipped:
  "skipped (rebaseUnits cr g us loop_init) =
     map (zeroDurationWarning cr) (filter (\<lambda>u. duration u = 0) us)"
  by (simp add: rebase_skipped loop_init_def)

lemma processInput_fail:
  "decoderConfig video = None \<Longrightarrow> processInput cr src video st = (Some NoDecoderConfig, st)"
  by (simp add: processInput_def)

lemma processInput_ok:
  assumes "decoderConfig video \<noteq> None" and "isPacketSource src = cr"
  shows "processInput cr src video st =
     (None, st\<lparr>warnings := warnings st @
                   map (zeroDurationWarning cr) (filter (\<lambda>u. duration u = 0) (unitsOf cr video)),
                 emitted := emitted st @
                   [map (rebased (timestamp (hd (emittable (unitsOf cr video)))) (globalTimeOffset st))
                      (emittable (unitsOf cr video))],
                 globalTimeOffset := advance (globalTimeOffset st) (unitsOf cr video)\<rparr>)"
  using assms
  by (cases cr)
     (simp_all add: processInput_def Let_def unitsOf_def rebase_init_added rebase_init_first
        rebase_init_skipped rebase_last advance_def)

subsection \<open>The loop over the inputs\<close>

lemma processInput_error_state:
  "processInput cr src video st = (Some e, st') \<Longrightarrow> st' = st"
  by (auto simp: processInput_def Let_def split: if_splits)

lemma processInput_error_kind:
  "isPacketSource src = cr \<Longrightarrow> processInput cr src video st = (Some e, st') \<Longrightarrow>
     e = NoDecoderConfig \<and> decoderConfig video = None"
  by (auto simp: processInput_def Let_def split: if_splits)

lemma processInputs_append:
  "processInputs cr src (xs @ ys) st =
     (case processInputs cr src xs st of
        (Some e, s) \<Rightarrow> (Some e, s)
      | (None, s) \<Rightarrow> processInputs cr src ys s)"
  by (induction xs arbitrary: st) (auto split: prod.splits option.splits)

lemma processInputs_invariant:
  assumes "P st"
    and "\<And>video s s'. video \<in> set tracks \<Longrightarrow> P s \<Longrightarrow> processInput cr src video s = (None, s') \<Longrightarrow> P s'"
  shows "P (snd (processInputs cr src tracks st))"
  using assms
proof (induction tracks arbitrary: st)
  case Nil
  then show ?case by simp
next
  case (Cons v vs)
  obtain x s' where step: "processInput cr src v st = (x, s')"
    by (cases "processInput cr src v st")
  show ?case
  proof (cases x)
    case None
    with step Cons.prems have "P s'" by auto
    with Cons.IH [of s'] Cons.prems(2) have "P (snd (processInputs cr src vs s'))"
      by auto
    with step None show ?thesis by simp
  next
    case (Some e)
    with step have "s' = st" by (auto dest: processInput_error_state)
    with step Some Cons.prems(1) show ?thesis by simp
  qed
qed

lemma processInputs_all_ok:
  assumes "\<forall>t \<in> set tracks. decoderConfig t \<noteq> None" and "isPacketSource src = cr"
  shows "fst (processInputs cr src tracks st) = None"
  using assms
proof (induction tracks arbitrary: st)
  case Nil
  then show ?case by simp
next
  case (Cons v vs)
  then show ?case by (simp add: processInput_ok)
qed

lemma processInputs_error:
  assumes "isPacketSource src = cr"
  shows "fst (processInputs cr src tracks st) =
     (if \<exists>t \<in> set tracks. decoderConfig t = None then Some NoDecoderConfig else None)"
  using assms
proof (induction tracks arbitrary: st)
  case Nil
  then show ?case by simp
next
  case (Cons v vs)
  show ?case
  proof (cases "decoderConfig v = None")
    case True
    then show ?thesis by (simp add: processInput_fail)
  next
    case False
    with Cons show ?thesis by (simp add: processInput_ok)
  qed
qed

lemma source_consistent:
  "isPacketSource (chosenSource env tracks) = canRemux (hd tracks) tracks"
  by (simp add: chosenSource_def)

lemma videoConcat_unfold:
  "videoConcat env streams =
     (if streams = [] then (Inl NoInputs, initial_state)
      else if inputPrimaryTracks env streams = [] then (Inl NoPrimaryTracks, probed env streams)
      else if falsy (negotiatedCodec env (inputPrimaryTracks env streams))
        then (Inl NoVideoEncoding, (probed env streams)\<lparr>alerted := True\<rparr>)
      else
        (case processInputs (canRemux (hd (inputPrimaryTracks env streams)) (inputPrimaryTracks env streams))
                (chosenSource env (inputPrimaryTracks env streams)) (inputPrimaryTracks env streams)
                ((probed env streams)\<lparr>videoTrack := Some (chosenSource env (inputPrimaryTracks env streams))\<rparr>) of
           (Some e, st3) \<Rightarrow> (Inl e, st3)
         | (None, st3) \<Rightarrow>
             (case finalizedBuffer env (chosenSource env (inputPrimaryTracks env streams))
                     (concat (emitted st3)) of
                None \<Rightarrow> (Inl BufferNull, st3\<lparr>finalized := True, disposed := [0 ..< length streams]\<rparr>)
              | Some b \<Rightarrow> (Inr b, st3\<lparr>finalized := True, disposed := [0 ..< length streams]\<rparr>))))"
  by (auto simp: videoConcat_def Let_def probed_def negotiatedCodec_def chosenSource_def initial_state_def
      split: prod.splits option.splits)

subsection \<open>Session boundaries and the order of the output\<close>

lemma last_last_filter:
  "concat xss \<noteq> [] \<Longrightarrow> last (last (filter (\<lambda>l. l \<noteq> []) xss)) = last (concat xss)"
  by (induction xss rule: rev_induct) auto

lemma filter_nonempty_Nil: "filter (\<lambda>l. l \<noteq> []) xss = [] \<longleftrightarrow> concat xss = []"
  by (induction xss) auto

lemma hd_rebased:
  "emittable us \<noteq> [] \<Longrightarrow>
     timestamp (hd (map (rebased (timestamp (hd (emittable us))) g) (emittable us))) = g"
  by (simp add: hd_map rebased_def)

lemma last_rebased:
  "emittable us \<noteq> [] \<Longrightarrow>
     timestamp (last (map (rebased (timestamp (hd (emittable us))) g) (emittable us))) = advance g us"
  by (simp add: last_map rebased_def advance_def)

lemma chained_step:
  assumes "chained s" and "processInput cr src video s = (None, s')" and "isPacketSource src = cr"
  shows "chained s'"
proof -
  let ?us = "unitsOf cr video"
  let ?new = "map (rebased (timestamp (hd (emittable ?us))) (globalTimeOffset s)) (emittable ?us)"
  have cfg: "decoderConfig video \<noteq> None"
    using assms(2) by (auto simp: processInput_def split: if_splits)
  have em: "emitted s' = emitted s @ [?new]" and off: "globalTimeOffset s' = advance (globalTimeOffset s) ?us"
    using assms(2) processInput_ok [OF cfg assms(3), of s] by auto
  show ?thesis
  proof (cases "emittable ?us = []")
    case True
    with em off assms(1) show ?thesis by (simp add: chained_def advance_def)
  next
    case False
    then have new: "?new \<noteq> []" by simp
    have h: "timestamp (hd ?new) = globalTimeOffset s" using False by (rule hd_rebased)
    have l: "timestamp (last ?new) = globalTimeOffset s'" using False off by (simp add: last_rebased)
    have "successively joined (filter (\<lambda>l. l \<noteq> []) (emitted s) @ [?new])"
    proof (cases "concat (emitted s) = []")
      case True
      then have "filter (\<lambda>l. l \<noteq> []) (emitted s) = []" by (simp add: filter_nonempty_Nil)
      then show ?thesis by simp
    next
      case nonempty: False
      then have "filter (\<lambda>l. l \<noteq> []) (emitted s) \<noteq> []" by (simp add: filter_nonempty_Nil)
      moreover have "joined (last (filter (\<lambda>l. l \<noteq> []) (emitted s))) ?new"
        using nonempty assms(1) h by (simp add: joined_def last_last_filter chained_def)
      ultimately show ?thesis
        using assms(1) by (simp add: successively_append_iff chained_def)
    qed
    moreover have "globalTimeOffset s' = timestamp (last (concat (emitted s')))"
      using em new l by simp
    ultimately show ?thesis using em new by (simp add: chained_def)
  qed
qed

lemma chained_processInputs:
  assumes "chained st" and "isPacketSource src = cr"
  shows "chained (snd (processInputs cr src tracks st))"
  using assms(1)
  by (rule processInputs_invariant) (rule chained_step [OF _ _ assms(2)])

lemma chained_probed: "chained ((probed env streams)\<lparr>videoTrack := x\<rparr>)" "chained (probed env streams)"
  "chained ((probed env streams)\<lparr>alerted := y\<rparr>)" "chained initial_state"
  by (simp_all add: chained_def probed_def initial_state_def)

lemma chained_finalized: "chained (st\<lparr>finalized := a, disposed := b\<rparr>) = chained st"
  by (simp add: chained_def)

lemma videoConcat_chained: "chained (snd (videoConcat env streams))"
proof -
  let ?tracks = "inputPrimaryTracks env streams"
  let ?src = "chosenSource env ?tracks"
  let ?cr = "canRemux (hd ?tracks) ?tracks"
  have "chained (snd (processInputs ?cr ?src ?tracks ((probed env streams)\<lparr>videoTrack := Some ?src\<rparr>)))"
    by (rule chained_processInputs) (simp_all add: chained_probed source_consistent)
  then show ?thesis
    by (auto simp: videoConcat_unfold chained_probed chained_finalized split: prod.splits option.splits)
qed

lemma sorted_rebased:
  assumes "sorted (map timestamp us)"
  shows "sorted (map timestamp (map (rebased a g) us))"
proof -
  have "sorted_wrt (\<lambda>x y. timestamp x \<le> timestamp y) us"
    using assms by (simp add: sorted_wrt_map)
  then have "sorted_wrt (\<lambda>x y. timestamp (rebased a g x) \<le> timestamp (rebased a g y)) us"
    by (rule sorted_wrt_mono_rel [rotated]) (use timeScale_pos in \<open>simp add: rebased_def\<close>)
  then show ?thesis by (simp add: sorted_wrt_map)
qed

lemma sorted_hd_le:
  "sorted (map timestamp us) \<Longrightarrow> u \<in> set us \<Longrightarrow> timestamp (hd us) \<le> timestamp u"
  by (cases us) auto

lemma rebased_ge_offset:
  assumes "sorted (map timestamp us)" and "v \<in> set (map (rebased (timestamp (hd us)) g) us)"
  shows "g \<le> timestamp v"
proof -
  from assms(2) obtain u where u: "u \<in> set us" and v: "v = rebased (timestamp (hd us)) g u"
    by auto
  have "timestamp (hd us) \<le> timestamp u" using assms(1) u by (rule sorted_hd_le)
  then have "0 \<le> (timestamp u - timestamp (hd us)) * timeScale"
    using timeScale_pos by simp
  then show ?thesis using v by (simp add: rebased_def)
qed

lemma sorted_le_last:
  "sorted (map timestamp us) \<Longrightarrow> u \<in> set us \<Longrightarrow> timestamp u \<le> timestamp (last us)"
  by (induction us) (auto split: if_splits)

lemma ordered_step:
  assumes "ordered s" and "processInput cr src video s = (None, s')" and "isPacketSource src = cr"
    and "sorted (map timestamp (emittable (unitsOf cr video)))"
  shows "ordered s'"
proof -
  let ?us = "unitsOf cr video"
  let ?new = "map (rebased (timestamp (hd (emittable ?us))) (globalTimeOffset s)) (emittable ?us)"
  have cfg: "decoderConfig video \<noteq> None"
    using assms(2) by (auto simp: processInput_def split: if_splits)
  have em: "emitted s' = emitted s @ [?new]" and off: "globalTimeOffset s' = advance (globalTimeOffset s) ?us"
    using assms(2) processInput_ok [OF cfg assms(3), of s] by auto
  show ?thesis
  proof (cases "emittable ?us = []")
    case True
    with em off assms(1) show ?thesis by (simp add: ordered_def advance_def)
  next
    case False
    then have new: "?new \<noteq> []" by simp
    have l: "timestamp (last ?new) = globalTimeOffset s'" using False off by (simp add: last_rebased)
    have sn: "sorted (map timestamp ?new)" using assms(4) by (rule sorted_rebased)
    have ge: "\<forall>v \<in> set ?new. globalTimeOffset s \<le> timestamp v"
      using rebased_ge_offset [OF assms(4)] by blast
    have le: "\<forall>u \<in> set (concat (emitted s)). timestamp u \<le> globalTimeOffset s"
    proof
      fix u assume u: "u \<in> set (concat (emitted s))"
      then have "concat (emitted s) \<noteq> []" by (metis empty_iff empty_set)
      with assms(1) have "globalTimeOffset s = timestamp (last (concat (emitted s)))"
        by (simp add: ordered_def)
      moreover have "timestamp u \<le> timestamp (last (concat (emitted s)))"
        using assms(1) u by (intro sorted_le_last) (simp_all add: ordered_def)
      ultimately show "timestamp u \<le> globalTimeOffset s" by simp
    qed
    have "sorted (map timestamp (concat (emitted s) @ ?new))"
      using assms(1) sn ge le unfolding ordered_def map_append sorted_append
      by (auto intro: order_trans)
    moreover have "globalTimeOffset s' = timestamp (last (concat (emitted s')))"
      using em new l by simp
    ultimately show ?thesis using em by (simp add: ordered_def)
  qed
qed

lemma ordered_processInputs:
  assumes "ordered st" and "isPacketSource src = cr"
    and "\<forall>t \<in> set tracks. sorted (map timestamp (emittable (unitsOf cr t)))"
  shows "ordered (snd (processInputs cr src tracks st))"
  using assms(1)
proof (rule processInputs_invariant)
  fix video s s'
  assume "video \<in> set tracks" "ordered s" "processInput cr src video s = (None, s')"
  with assms(2,3) show "ordered s'" by (auto intro: ordered_step)
qed

lemma ordered_probed: "ordered ((probed env streams)\<lparr>videoTrack := x\<rparr>)" "ordered (probed env streams)"
  "ordered ((probed env streams)\<lparr>alerted := y\<rparr>)" "ordered initial_state"
  by (simp_all add: ordered_def probed_def initial_state_def)

lemma ordered_finalized: "ordered (st\<lparr>finalized := a, disposed := b\<rparr>) = ordered st"
  by (simp add: ordered_def)

lemma videoConcat_ordered:
  assumes "\<forall>t \<in> set (inputPrimaryTracks env streams).
     sorted (map timestamp (emittable (unitsOf
       (canRemux (hd (inputPrimaryTracks env streams)) (inputPrimaryTracks env streams)) t)))"
  shows "ordered (snd (videoConcat env streams))"
proof -
  let ?tracks = "inputPrimaryTracks env streams"
  let ?src = "chosenSource env ?tracks"
  let ?cr = "canRemux (hd ?tracks) ?tracks"
  have "ordered (snd (processInputs ?cr ?src ?tracks ((probed env streams)\<lparr>videoTrack := Some ?src\<rparr>)))"
    using assms by (intro ordered_processInputs) (simp_all add: ordered_probed source_consistent)
  then show ?thesis
    by (auto simp: videoConcat_unfold ordered_probed ordered_finalized split: prod.splits option.splits)
qed

lemmas run_defs = videoConcat_def Let_def inputPrimaryTracks_def nullTrackWarnings_def canRemux_def
  falsy_def processInput_def initial_state_def loop_init_def example_env_def example_track_def
  unit_at_def timeScale_def TIMELAPSE_FRAME_LENGTH_MS_def TIMELAPSE_FPS_def

text \<open>
  C1, as the code has it. In every run of \<open>videoConcat\<close>, whatever its outcome, the first
  unit emitted for a session carries the output timestamp of the last unit emitted for the
  previous session that emitted anything: the offset advances by
  \<open>(localLastTimestamp - localFirstTimestamp) * timeScale\<close>, which leaves out the duration of
  the last unit, so the later session begins where the last unit of the earlier one
  begins, not where it ends. When the units of every surviving track come with
  non-decreasing timestamps, the timestamps of the whole output are non-decreasing.
\<close>

theorem sessions_meet_at_last_timestamp:
  assumes "videoConcat env streams = (r, st)"
  shows "successively joined (filter (\<lambda>l. l \<noteq> []) (emitted st)) \<and>
         ((\<forall>t \<in> set (inputPrimaryTracks env streams).
             sorted (map timestamp (emittable (unitsOf
               (canRemux (hd (inputPrimaryTracks env streams)) (inputPrimaryTracks env streams)) t)))) \<longrightarrow>
          sorted (map timestamp (concat (emitted st))))"
proof -
  have st: "st = snd (videoConcat env streams)" using assms by simp
  have "chained st" unfolding st by (rule videoConcat_chained)
  moreover have "ordered st"
    if "\<forall>t \<in> set (inputPrimaryTracks env streams).
             sorted (map timestamp (emittable (unitsOf
               (canRemux (hd (inputPrimaryTracks env streams)) (inputPrimaryTracks env streams)) t)))"
    unfolding st using that by (rule videoConcat_ordered)
  ultimately show ?thesis by (simp add: chained_def ordered_def)
qed

theorem sessions_meet_at_last_timestamp_witness:
  "videoConcat (example_env two_sessions) [ [1], [2] ] =
     (Inr [0, 0, 0],
      \<lparr>opened = [0, 1], warnings = [], alerted = False,
       videoTrack = Some (EncodedVideoPacketSource (Some ''avc'')),
       globalTimeOffset = 1 / 60,
       emitted = [ [unit_at 0 (1 / 60), unit_at (1 / 60) (1 / 60)], [unit_at (1 / 60) (1 / 60)] ],
       finalized = True, disposed = [0, 1]\<rparr>) \<and>
   successively joined [ [unit_at 0 (1 / 60), unit_at (1 / 60) (1 / 60)], [unit_at (1 / 60) (1 / 60)] ] \<and>
   sorted (map timestamp [unit_at 0 (1 / 60), unit_at (1 / 60) (1 / 60), unit_at (1 / 60) (1 / 60)])"
proof -
  have run: "videoConcat (example_env two_sessions) [ [1], [2] ] =
     (Inr [0, 0, 0],
      \<lparr>opened = [0, 1], warnings = [], alerted = False,
       videoTrack = Some (EncodedVideoPacketSource (Some ''avc'')),
       globalTimeOffset = 1 / 60,
       emitted = [ [unit_at 0 (1 / 60), unit_at (1 / 60) (1 / 60)], [unit_at (1 / 60) (1 / 60)] ],
       finalized = True, disposed = [0, 1]\<rparr>)"
    by (simp add: run_defs two_sessions_def)
  have tracks: "inputPrimaryTracks (example_env two_sessions) [ [1], [2] ] =
     [example_track [unit_at 0 1, unit_at 1 1], example_track [unit_at 0 1] ]"
    by (simp add: inputPrimaryTracks_def example_env_def two_sessions_def)
  have hyp: "\<forall>t \<in> set (inputPrimaryTracks (example_env two_sessions) [ [1], [2] ]).
     sorted (map timestamp (emittable (unitsOf
       (canRemux (hd (inputPrimaryTracks (example_env two_sessions) [ [1], [2] ]))
          (inputPrimaryTracks (example_env two_sessions) [ [1], [2] ])) t)))"
    unfolding tracks
    by (simp add: canRemux_def example_track_def unitsOf_def emittable_def unit_at_def)
  from sessions_meet_at_last_timestamp [OF run] hyp run show ?thesis by simp
qed

text \<open>The claim as the specification words it fails on two sessions: the second session
  begins at \<open>1/60\<close>, the timestamp of the last unit of the first, and not at \<open>2/60\<close>, that
  timestamp plus the rebased duration.\<close>

theorem sessions_gap_free_counterexample:
  "emitted (snd (videoConcat (example_env two_sessions) [ [1], [2] ])) =
     [ [unit_at 0 (1 / 60), unit_at (1 / 60) (1 / 60)], [unit_at (1 / 60) (1 / 60)] ] \<and>
   timestamp (hd (emitted (snd (videoConcat (example_env two_sessions) [ [1], [2] ])) ! 1)) \<noteq>
     timestamp (last (emitted (snd (videoConcat (example_env two_sessions) [ [1], [2] ])) ! 0)) +
     duration (last (emitted (snd (videoConcat (example_env two_sessions) [ [1], [2] ])) ! 0))"
  by (simp add: run_defs two_sessions_def)

subsection \<open>Units of zero duration\<close>








lemma nullTrackWarnings_withoutZeroDurationEnv:
  "nullTrackWarnings (withoutZeroDurationEnv env) streams = nullTrackWarnings env streams"
  by (induction streams) (auto simp: nullTrackWarnings_def withoutZeroDurationEnv_def)


lemma withoutZeroDuration_fields [simp]:
  "codec (withoutZeroDuration v) = codec v"
  "codedWidth (withoutZeroDuration v) = codedWidth v"
  "codedHeight (withoutZeroDuration v) = codedHeight v"
  "decoderConfig (withoutZeroDuration v) = decoderConfig v"
  by (simp_all add: withoutZeroDuration_def)

lemma withoutZeroDurationEnv_fields [simp]:
  "getSupportedVideoCodecs (withoutZeroDurationEnv env) = getSupportedVideoCodecs env"
  "getFirstEncodableVideoCodec (withoutZeroDurationEnv env) = getFirstEncodableVideoCodec env"
  "finalizedBuffer (withoutZeroDurationEnv env) = finalizedBuffer env"
  by (simp_all add: withoutZeroDurationEnv_def)





lemma rebased_duration_nonzero:
  "v \<in> set (added (rebaseUnits cr g us loop_init)) \<Longrightarrow> duration v \<noteq> 0"
  using timeScale_pos by (auto simp: rebase_init_added rebased_def emittable_def)



subsection \<open>The rebasing formula\<close>

lemma processInput_None_consistent:
  "processInput cr src video st = (None, st') \<Longrightarrow> decoderConfig video \<noteq> None \<and> isPacketSource src = cr"
  by (auto simp: processInput_def Let_def split: if_splits)

lemma scenario_A_run:
  "globalTimeOffset (snd (videoConcat (example_env scenario_A) [ [1], [2] ])) = 750 \<and>
   timestamp (last (concat (emitted (snd (videoConcat (example_env scenario_A) [ [1], [2] ]))))) = 750 \<and>
   length (concat (emitted (snd (videoConcat (example_env scenario_A) [ [1], [2] ])))) = 20"
  by (simp add: run_defs scenario_A_def scenario_units_def)

text \<open>
  C3, as the code has it. With \<open>timeScale = (1000 / TIMELAPSE_FRAME_LENGTH_MS) / TIMELAPSE_FPS\<close>,
  which is \<open>0.4 / 24\<close> for the constants 2500 and 24, a pass over a track that completes
  emits one unit for each unit of non-zero duration, with output timestamp
  \<open>(unitTimestamp - localFirstTimestamp) * timeScale + globalTimeOffset\<close> and output duration
  \<open>unitDuration * timeScale\<close>, where \<open>localFirstTimestamp\<close> is the timestamp of the first unit
  of non-zero duration of the session, which is the first unit of the session when that
  unit has a duration. Two sessions of ten units spaced 2500 apart end the run with
  \<open>globalTimeOffset = (9 * 2500 * 2) * timeScale = 750\<close>, the timestamp of the last unit
  emitted.
\<close>

theorem rebasing_formula:
  "timeScale = (1000 / TIMELAPSE_FRAME_LENGTH_MS) / TIMELAPSE_FPS \<and>
   TIMELAPSE_FRAME_LENGTH_MS = 2500 \<and> TIMELAPSE_FPS = 24 \<and> timeScale = 0.4 / 24 \<and>
   (processInput cr src video st = (None, st') \<longrightarrow>
      emitted st' = emitted st @
        [map (\<lambda>u. u\<lparr>timestamp :=
                        (timestamp u - timestamp (hd (emittable (unitsOf cr video)))) * timeScale +
                        globalTimeOffset st,
                      duration := duration u * timeScale\<rparr>)
           (emittable (unitsOf cr video))]) \<and>
   (unitsOf cr video \<noteq> [] \<and> duration (hd (unitsOf cr video)) \<noteq> 0 \<longrightarrow>
      hd (emittable (unitsOf cr video)) = hd (unitsOf cr video)) \<and>
   globalTimeOffset (snd (videoConcat (example_env scenario_A) [ [1], [2] ])) = (9 * 2500 * 2) * timeScale \<and>
   globalTimeOffset (snd (videoConcat (example_env scenario_A) [ [1], [2] ])) = 750 \<and>
   timestamp (last (concat (emitted (snd (videoConcat (example_env scenario_A) [ [1], [2] ]))))) = 750 \<and>
   \<bar>(9 * 2500 * 2) * 0.01667 - globalTimeOffset (snd (videoConcat (example_env scenario_A) [ [1], [2] ]))\<bar> < 1"
proof -
  have formula: "emitted st' = emitted st @
        [map (\<lambda>u. u\<lparr>timestamp :=
                        (timestamp u - timestamp (hd (emittable (unitsOf cr video)))) * timeScale +
                        globalTimeOffset st,
                      duration := duration u * timeScale\<rparr>)
           (emittable (unitsOf cr video))]"
    if run: "processInput cr src video st = (None, st')"
  proof -
    from processInput_None_consistent [OF run]
    have "decoderConfig video \<noteq> None" and "isPacketSource src = cr" by simp_all
    from processInput_ok [OF this, of st] run show ?thesis
      by (auto simp: rebased_def [abs_def])
  qed
  have anchor: "hd (emittable (unitsOf cr video)) = hd (unitsOf cr video)"
    if "unitsOf cr video \<noteq> []" and "duration (hd (unitsOf cr video)) \<noteq> 0"
    using that by (cases "unitsOf cr video") (simp_all add: emittable_def)
  show ?thesis
    using formula anchor scenario_A_run
    by (simp add: timeScale_value TIMELAPSE_FRAME_LENGTH_MS_def TIMELAPSE_FPS_def timeScale_def)
qed

theorem rebasing_formula_witness:
  "processInput True (EncodedVideoPacketSource (Some ''avc''))
      (example_track [unit_at 0 1, unit_at 1 1]) (initial_state\<lparr>globalTimeOffset := 2\<rparr>) =
     (None, initial_state\<lparr>globalTimeOffset := 2 + 1 / 60,
              emitted := [ [unit_at 2 (1 / 60), unit_at (2 + 1 / 60) (1 / 60)] ]\<rparr>) \<and>
   unitsOf True (example_track [unit_at 0 1, unit_at 1 1]) \<noteq> [] \<and>
   duration (hd (unitsOf True (example_track [unit_at 0 1, unit_at 1 1]))) \<noteq> 0 \<and>
   emitted (initial_state\<lparr>globalTimeOffset := 2 + 1 / 60,
              emitted := [ [unit_at 2 (1 / 60), unit_at (2 + 1 / 60) (1 / 60)] ]\<rparr>) =
     emitted (initial_state\<lparr>globalTimeOffset := 2\<rparr>) @
       [map (\<lambda>u. u\<lparr>timestamp := (timestamp u - 0) * timeScale + 2, duration := duration u * timeScale\<rparr>)
          [unit_at 0 1, unit_at 1 1] ]"
proof -
  have run: "processInput True (EncodedVideoPacketSource (Some ''avc''))
      (example_track [unit_at 0 1, unit_at 1 1]) (initial_state\<lparr>globalTimeOffset := 2\<rparr>) =
     (None, initial_state\<lparr>globalTimeOffset := 2 + 1 / 60,
              emitted := [ [unit_at 2 (1 / 60), unit_at (2 + 1 / 60) (1 / 60)] ]\<rparr>)"
    by (simp add: run_defs)
  have units: "unitsOf True (example_track [unit_at 0 1, unit_at 1 1]) = [unit_at 0 1, unit_at 1 1]"
    by (simp add: unitsOf_def example_track_def)
  from rebasing_formula [of True "EncodedVideoPacketSource (Some ''avc'')"
      "example_track [unit_at 0 1, unit_at 1 1]" "initial_state\<lparr>globalTimeOffset := 2\<rparr>"
      "initial_state\<lparr>globalTimeOffset := 2 + 1 / 60,
              emitted := [ [unit_at 2 (1 / 60), unit_at (2 + 1 / 60) (1 / 60)] ]\<rparr>"] run
  show ?thesis
    unfolding units by (simp add: emittable_def unit_at_def initial_state_def)
qed

text \<open>The claim as the specification words it, with \<open>localFirstTimestamp\<close> the timestamp
  of the first unit of the session, fails on a session whose first packet has no
  duration: the packet at 10 is emitted at 0, not at \<open>(10 - 5) * timeScale\<close>.\<close>

theorem first_unit_anchor_counterexample:
  "emitted (snd (videoConcat (example_env zero_first) [ [1] ])) = [ [unit_at 0 (1 / 60)] ] \<and>
   packets (example_track [unit_at 5 0, unit_at 10 1]) = [unit_at 5 0, unit_at 10 1] \<and>
   timestamp (hd (hd (emitted (snd (videoConcat (example_env zero_first) [ [1] ]))))) \<noteq>
     (timestamp (unit_at 10 1) - timestamp (hd (packets (example_track [unit_at 5 0, unit_at 10 1])))) *
       timeScale + 0"
  by (simp add: run_defs zero_first_def)

subsection \<open>Outcome and effects of a run\<close>

lemma processInput_frame:
  "processInput cr src video s = (x, s') \<Longrightarrow>
     opened s' = opened s \<and> disposed s' = disposed s \<and> finalized s' = finalized s \<and>
     videoTrack s' = videoTrack s \<and> alerted s' = alerted s"
  by (auto simp: processInput_def Let_def split: if_splits)

lemma processInputs_frame:
  "opened (snd (processInputs cr src tracks st)) = opened st \<and>
   disposed (snd (processInputs cr src tracks st)) = disposed st \<and>
   finalized (snd (processInputs cr src tracks st)) = finalized st \<and>
   videoTrack (snd (processInputs cr src tracks st)) = videoTrack st \<and>
   alerted (snd (processInputs cr src tracks st)) = alerted st"
  by (rule processInputs_invariant [where P = "\<lambda>s. opened s = opened st \<and> disposed s = disposed st \<and>
        finalized s = finalized st \<and> videoTrack s = videoTrack st \<and> alerted s = alerted st"])
     (auto dest: processInput_frame)

lemma processInputs_length_emitted:
  assumes "\<forall>t \<in> set tracks. decoderConfig t \<noteq> None" and "isPacketSource src = cr"
  shows "length (emitted (snd (processInputs cr src tracks st))) = length (emitted st) + length tracks"
  using assms(1)
proof (induction tracks arbitrary: st)
  case Nil
  then show ?case by simp
next
  case (Cons v vs)
  then show ?case using assms(2) by (simp add: processInput_ok)
qed

lemma processInputs_stops:
  assumes "\<forall>t \<in> set pre. decoderConfig t \<noteq> None" and "decoderConfig v = None"
    and "isPacketSource src = cr"
  shows "processInputs cr src (pre @ v # post) st =
           (Some NoDecoderConfig, snd (processInputs cr src pre st))"
proof -
  have "fst (processInputs cr src pre st) = None"
    using assms(1,3) by (rule processInputs_all_ok)
  then obtain s where pre: "processInputs cr src pre st = (None, s)"
    by (cases "processInputs cr src pre st") simp
  then show ?thesis
    using assms(2) by (simp add: processInputs_append processInput_fail)
qed

text \<open>The outcome and the state of a run, case by case.\<close>

lemma videoConcat_outcome:
  "fst (videoConcat env streams) =
     (if streams = [] then Inl NoInputs
      else if inputPrimaryTracks env streams = [] then Inl NoPrimaryTracks
      else if falsy (negotiatedCodec env (inputPrimaryTracks env streams)) then Inl NoVideoEncoding
      else if \<exists>t \<in> set (inputPrimaryTracks env streams). decoderConfig t = None then Inl NoDecoderConfig
      else (case finalizedBuffer env (chosenSource env (inputPrimaryTracks env streams))
                   (concat (emitted (snd (videoConcat env streams)))) of
              None \<Rightarrow> Inl BufferNull
            | Some b \<Rightarrow> Inr b))"
proof -
  let ?tracks = "inputPrimaryTracks env streams"
  let ?src = "chosenSource env ?tracks"
  let ?cr = "canRemux (hd ?tracks) ?tracks"
  let ?s = "(probed env streams)\<lparr>videoTrack := Some ?src\<rparr>"
  have sc: "isPacketSource ?src = ?cr" by (rule source_consistent)
  obtain x t where run: "processInputs ?cr ?src ?tracks ?s = (x, t)"
    by (cases "processInputs ?cr ?src ?tracks ?s")
  with processInputs_error [OF sc, of ?tracks ?s]
  have x: "x = (if \<exists>t \<in> set ?tracks. decoderConfig t = None then Some NoDecoderConfig else None)"
    by simp
  show ?thesis
    using run x by (auto simp: videoConcat_unfold split: option.splits)
qed

lemma videoConcat_frame:
  "opened (snd (videoConcat env streams)) = [0 ..< length streams] \<and>
   videoTrack (snd (videoConcat env streams)) =
     (if streams = [] \<or> inputPrimaryTracks env streams = [] \<or>
         falsy (negotiatedCodec env (inputPrimaryTracks env streams)) then None
      else Some (chosenSource env (inputPrimaryTracks env streams))) \<and>
   finalized (snd (videoConcat env streams)) =
     (\<exists>b. fst (videoConcat env streams) = Inr b \<or> fst (videoConcat env streams) = Inl BufferNull) \<and>
   disposed (snd (videoConcat env streams)) =
     (if finalized (snd (videoConcat env streams)) then [0 ..< length streams] else [])"
proof -
  let ?tracks = "inputPrimaryTracks env streams"
  let ?src = "chosenSource env ?tracks"
  let ?cr = "canRemux (hd ?tracks) ?tracks"
  let ?s = "(probed env streams)\<lparr>videoTrack := Some ?src\<rparr>"
  have sc: "isPacketSource ?src = ?cr" by (rule source_consistent)
  obtain x t where run: "processInputs ?cr ?src ?tracks ?s = (x, t)"
    by (cases "processInputs ?cr ?src ?tracks ?s")
  with processInputs_error [OF sc, of ?tracks ?s]
  have x: "x = Some NoDecoderConfig \<or> x = None"
    by (simp split: if_splits)
  from processInputs_frame [of ?cr ?src ?tracks ?s] run
  have t: "opened t = [0 ..< length streams]" "disposed t = []" "finalized t = False"
    "videoTrack t = Some ?src"
    by (simp_all add: probed_def initial_state_def)
  show ?thesis
    using run x t
    by (auto simp: videoConcat_unfold probed_def initial_state_def split: option.splits)
qed

subsection \<open>The remux decision and the codec negotiation\<close>







text \<open>
  C10. The codec is negotiated from the coded size of the first surviving track before
  the tracks are compared: whenever there is a surviving track and no codec can be encoded
  at that size, the run alerts the user and fails with the error of line 103, without
  having added a source or emitted a unit, whether or not the tracks could be remuxed.
\<close>

theorem negotiation_precedes_remux_decision:
  assumes "streams \<noteq> []" and "inputPrimaryTracks env streams \<noteq> []"
    and "falsy (getFirstEncodableVideoCodec env (getSupportedVideoCodecs env)
                 (codedWidth (hd (inputPrimaryTracks env streams)))
                 (codedHeight (hd (inputPrimaryTracks env streams))))"
  shows "videoConcat env streams = (Inl NoVideoEncoding, (probed env streams)\<lparr>alerted := True\<rparr>) \<and>
         videoTrack (snd (videoConcat env streams)) = None \<and>
         emitted (snd (videoConcat env streams)) = []"
  using assms
  by (simp add: videoConcat_unfold negotiatedCodec_def probed_def initial_state_def)

theorem negotiation_precedes_remux_decision_witness:
  "[ [1], [2] ] \<noteq> ([] :: blob list) \<and>
   inputPrimaryTracks (no_encoder_env two_sessions) [ [1], [2] ] =
     [example_track [unit_at 0 1, unit_at 1 1], example_track [unit_at 0 1] ] \<and>
   canRemux (example_track [unit_at 0 1, unit_at 1 1])
     [example_track [unit_at 0 1, unit_at 1 1], example_track [unit_at 0 1] ] \<and>
   falsy (getFirstEncodableVideoCodec (no_encoder_env two_sessions)
            (getSupportedVideoCodecs (no_encoder_env two_sessions)) 1920 1080) \<and>
   fst (videoConcat (no_encoder_env two_sessions) [ [1], [2] ]) = Inl NoVideoEncoding \<and>
   alerted (snd (videoConcat (no_encoder_env two_sessions) [ [1], [2] ]))"
proof -
  have tracks: "inputPrimaryTracks (no_encoder_env two_sessions) [ [1], [2] ] =
     [example_track [unit_at 0 1, unit_at 1 1], example_track [unit_at 0 1] ]"
    by (simp add: inputPrimaryTracks_def no_encoder_env_def example_env_def two_sessions_def)
  have ne: "[ [1], [2] ] \<noteq> ([] :: blob list)" by simp
  have ne': "inputPrimaryTracks (no_encoder_env two_sessions) [ [1], [2] ] \<noteq> []"
    unfolding tracks by simp
  have g: "getFirstEncodableVideoCodec (no_encoder_env two_sessions) = (\<lambda>cs w h. None)"
    by (simp add: no_encoder_env_def example_env_def)
  have f: "falsy (getFirstEncodableVideoCodec (no_encoder_env two_sessions)
            (getSupportedVideoCodecs (no_encoder_env two_sessions))
            (codedWidth (hd (inputPrimaryTracks (no_encoder_env two_sessions) [ [1], [2] ])))
            (codedHeight (hd (inputPrimaryTracks (no_encoder_env two_sessions) [ [1], [2] ]))))"
    unfolding g by (simp add: falsy_def)
  have cr: "canRemux (example_track [unit_at 0 1, unit_at 1 1])
     [example_track [unit_at 0 1, unit_at 1 1], example_track [unit_at 0 1] ]"
    by (simp add: canRemux_def example_track_def)
  from negotiation_precedes_remux_decision [OF ne ne' f] cr
  show ?thesis unfolding tracks g by (simp add: falsy_def)
qed

subsection \<open>Disposal and the missing decoder configuration\<close>

text \<open>
  C5, as the code has it. The inputs are disposed by the one statement that follows
  \<open>out.finalize()\<close>: every opened input is disposed exactly in the runs that reach
  finalization, which are the runs that return a buffer and the runs that fail because the
  buffer is \<open>null\<close>. A run that fails earlier (no surviving track, no encodable codec, no
  decoder configuration) disposes none of the inputs it opened.
\<close>

theorem inputs_disposed_after_finalization_only:
  assumes "videoConcat env streams = (r, st)"
  shows "opened st = [0 ..< length streams] \<and>
         (finalized st \<longleftrightarrow> (\<exists>b. r = Inr b) \<or> r = Inl BufferNull) \<and>
         (finalized st \<longrightarrow> disposed st = opened st) \<and>
         (\<not> finalized st \<longrightarrow> disposed st = []) \<and>
         (disposed st = opened st \<longleftrightarrow> streams = [] \<or> (\<exists>b. r = Inr b) \<or> r = Inl BufferNull)"
proof -
  from videoConcat_frame [of env streams] assms
  have o: "opened st = [0 ..< length streams]"
    and f: "finalized st \<longleftrightarrow> (\<exists>b. r = Inr b) \<or> r = Inl BufferNull"
    and d: "disposed st = (if finalized st then [0 ..< length streams] else [])"
    by auto
  have e: "([] = [0 ..< length streams]) = (streams = [])"
    by (cases streams) (simp_all add: upt_rec)
  have "disposed st = opened st \<longleftrightarrow> streams = [] \<or> finalized st"
    using o d e by auto
  with o f d show ?thesis by auto
qed

theorem inputs_disposed_after_finalization_only_witness:
  "videoConcat (example_env two_sessions) [ [1], [2] ] =
     (Inr [0, 0, 0],
      \<lparr>opened = [0, 1], warnings = [], alerted = False,
       videoTrack = Some (EncodedVideoPacketSource (Some ''avc'')),
       globalTimeOffset = 1 / 60,
       emitted = [ [unit_at 0 (1 / 60), unit_at (1 / 60) (1 / 60)], [unit_at (1 / 60) (1 / 60)] ],
       finalized = True, disposed = [0, 1]\<rparr>) \<and>
   finalized (snd (videoConcat (example_env two_sessions) [ [1], [2] ])) \<and>
   disposed (snd (videoConcat (example_env two_sessions) [ [1], [2] ])) =
     opened (snd (videoConcat (example_env two_sessions) [ [1], [2] ]))"
proof -
  let ?st = "\<lparr>opened = [0, 1], warnings = [], alerted = False,
       videoTrack = Some (EncodedVideoPacketSource (Some ''avc'')),
       globalTimeOffset = 1 / 60,
       emitted = [ [unit_at 0 (1 / 60), unit_at (1 / 60) (1 / 60)], [unit_at (1 / 60) (1 / 60)] ],
       finalized = True, disposed = [0, 1]\<rparr>"
  have run: "videoConcat (example_env two_sessions) [ [1], [2] ] = (Inr [0, 0, 0], ?st)"
    by (simp add: run_defs two_sessions_def)
  have fin: "finalized ?st" by simp
  from inputs_disposed_after_finalization_only [OF run] fin
  have "disposed ?st = opened ?st" by blast
  with run fin show ?thesis by (simp only: snd_conv simp_thms)
qed

text \<open>The claim as the specification words it fails on the two error paths it names: a
  blob without a video track, and two good tracks in an environment without an encoder,
  are opened and never disposed.\<close>

theorem inputs_not_disposed_counterexample:
  "videoConcat (example_env no_tracks) [ [1] ] =
     (Inl NoPrimaryTracks,
      \<lparr>opened = [0], warnings = [NullPrimaryTrack], alerted = False, videoTrack = None,
       globalTimeOffset = 0, emitted = [], finalized = False, disposed = []\<rparr>) \<and>
   videoConcat (no_encoder_env two_sessions) [ [1], [2] ] =
     (Inl NoVideoEncoding,
      \<lparr>opened = [0, 1], warnings = [], alerted = True, videoTrack = None,
       globalTimeOffset = 0, emitted = [], finalized = False, disposed = []\<rparr>)"
  by (simp add: run_defs no_tracks_def no_encoder_env_def two_sessions_def)

text \<open>
  C6, as the code has it. A surviving track without a decoder configuration fails the
  assertion at the top of its iteration, on the remux path as on the transcode path: the
  run ends there with that error. The sessions before it have been emitted, the session
  itself and the sessions after it are not processed, nothing is finalized and no input
  is disposed.
\<close>

theorem missing_decoder_config_aborts_run:
  assumes "streams \<noteq> []"
    and "inputPrimaryTracks env streams = pre @ v # post"
    and "\<forall>t \<in> set pre. decoderConfig t \<noteq> None"
    and "decoderConfig v = None"
    and "\<not> falsy (negotiatedCodec env (inputPrimaryTracks env streams))"
  shows "videoConcat env streams =
           (Inl NoDecoderConfig,
            snd (processInputs
                   (canRemux (hd (inputPrimaryTracks env streams)) (inputPrimaryTracks env streams))
                   (chosenSource env (inputPrimaryTracks env streams)) pre
                   ((probed env streams)\<lparr>videoTrack := Some (chosenSource env (inputPrimaryTracks env streams))\<rparr>))) \<and>
         length (emitted (snd (videoConcat env streams))) = length pre \<and>
         \<not> finalized (snd (videoConcat env streams)) \<and>
         disposed (snd (videoConcat env streams)) = []"
proof -
  let ?tracks = "inputPrimaryTracks env streams"
  let ?src = "chosenSource env ?tracks"
  let ?cr = "canRemux (hd ?tracks) ?tracks"
  let ?s = "(probed env streams)\<lparr>videoTrack := Some ?src\<rparr>"
  have sc: "isPacketSource ?src = ?cr" by (rule source_consistent)
  have stop: "processInputs ?cr ?src (pre @ v # post) ?s =
                (Some NoDecoderConfig, snd (processInputs ?cr ?src pre ?s))"
    using assms(3,4) sc by (rule processInputs_stops)
  have ne: "?tracks \<noteq> []" using assms(2) by simp
  have run: "videoConcat env streams = (Inl NoDecoderConfig, snd (processInputs ?cr ?src pre ?s))"
    using assms(1,5) ne stop unfolding videoConcat_unfold [of env streams]
    by (simp add: assms(2) [symmetric])
  have len: "length (emitted (snd (processInputs ?cr ?src pre ?s))) = length pre"
    using processInputs_length_emitted [OF assms(3) sc, of ?s]
    by (simp add: probed_def initial_state_def)
  have fr: "\<not> finalized (snd (processInputs ?cr ?src pre ?s))"
    "disposed (snd (processInputs ?cr ?src pre ?s)) = []"
    using processInputs_frame [of ?cr ?src pre ?s]
    by (simp_all add: probed_def initial_state_def)
  show ?thesis
    unfolding run using len fr by simp
qed

theorem missing_decoder_config_aborts_run_witness:
  "inputPrimaryTracks (example_env missing_config) [ [2], [1], [2] ] =
     [example_track [unit_at 0 1] ] @
     (example_track [unit_at 0 1])\<lparr>decoderConfig := None\<rparr> # [example_track [unit_at 0 1] ] \<and>
   fst (videoConcat (example_env missing_config) [ [2], [1], [2] ]) = Inl NoDecoderConfig \<and>
   length (emitted (snd (videoConcat (example_env missing_config) [ [2], [1], [2] ]))) = 1"
proof -
  let ?env = "example_env missing_config"
  let ?good = "example_track [unit_at 0 1]"
  have tracks: "inputPrimaryTracks ?env [ [2], [1], [2] ] =
      [?good] @ ?good\<lparr>decoderConfig := None\<rparr> # [?good]"
    by (simp add: inputPrimaryTracks_def example_env_def missing_config_def)
  have ne: "[ [2], [1], [2] ] \<noteq> ([] :: blob list)" by simp
  have pre: "\<forall>t \<in> set [?good]. decoderConfig t \<noteq> None"
    by (simp add: example_track_def)
  have bad: "decoderConfig (?good\<lparr>decoderConfig := None\<rparr>) = None"
    by simp
  have codec: "\<not> falsy (negotiatedCodec ?env (inputPrimaryTracks ?env [ [2], [1], [2] ]))"
    by (simp add: falsy_def negotiatedCodec_def example_env_def)
  note aborted = missing_decoder_config_aborts_run [OF ne tracks pre bad codec]
  from aborted [THEN conjunct1] have "fst (videoConcat ?env [ [2], [1], [2] ]) = Inl NoDecoderConfig"
    by (simp only: fst_conv)
  moreover from aborted [THEN conjunct2, THEN conjunct1]
  have "length (emitted (snd (videoConcat ?env [ [2], [1], [2] ]))) = 1"
    by simp
  ultimately show ?thesis using tracks by (simp only: simp_thms)
qed

text \<open>The claim as the specification words it fails on two remux-eligible sessions of
  which the first has no decoder configuration: the run aborts, and the second session,
  which is sound, contributes nothing.\<close>

theorem missing_decoder_config_counterexample:
  "canRemux (example_track [unit_at 0 1])
     [(example_track [unit_at 0 1])\<lparr>decoderConfig := None\<rparr>, example_track [unit_at 0 1] ] \<and>
   videoConcat (example_env missing_config) [ [1], [2] ] =
     (Inl NoDecoderConfig,
      \<lparr>opened = [0, 1], warnings = [], alerted = False,
       videoTrack = Some (EncodedVideoPacketSource (Some ''avc'')),
       globalTimeOffset = 0, emitted = [], finalized = False, disposed = []\<rparr>)"
  by (simp add: run_defs missing_config_def)

subsection \<open>Session grouping\<close>

lemma set_firstSeen [simp]: "set (firstSeen ks) = set ks"
  by (induction ks) auto

lemma distinct_firstSeen [simp]: "distinct (firstSeen ks)"
  by (induction ks) (auto simp: distinct_removeAll)

lemma firstSeen_snoc:
  "firstSeen (ks @ [k]) = (if k \<in> set ks then firstSeen ks else firstSeen ks @ [k])"
  by (induction ks) auto

lemma groupBy_snoc: "groupBy f (xs @ [x]) = addToGroup (f x) x (groupBy f xs)"
  by (simp add: groupBy_def)

lemma addToGroup_map:
  assumes "distinct ks"
  shows "addToGroup k x (map (\<lambda>k'. (k', F k')) ks) =
     (if k \<in> set ks then map (\<lambda>k'. (k', if k' = k then F k' @ [x] else F k')) ks
      else map (\<lambda>k'. (k', F k')) ks @ [(k, [x])])"
  using assms by (induction ks) auto

lemma groupBy_closed:
  "groupBy f xs = map (\<lambda>k. (k, filter (\<lambda>y. f y = k) xs)) (firstSeen (map f xs))"
proof (induction xs rule: rev_induct)
  case Nil
  then show ?case by (simp add: groupBy_def)
next
  case (snoc x xs)
  let ?ks = "firstSeen (map f xs)"
  have step: "groupBy f (xs @ [x]) =
      addToGroup (f x) x (map (\<lambda>k. (k, filter (\<lambda>y. f y = k) xs)) ?ks)"
    by (simp add: groupBy_snoc snoc)
  show ?case
  proof (cases "f x \<in> f ` set xs")
    case True
    then show ?thesis
      unfolding step by (simp add: addToGroup_map firstSeen_snoc)
  next
    case False
    then have "filter (\<lambda>y. f y = f x) xs = []"
      unfolding filter_empty_conv by (metis image_eqI)
    moreover have "\<forall>k \<in> set ?ks. k \<noteq> f x"
      using False by (metis set_firstSeen list.set_map)
    moreover have "\<forall>y \<in> set xs. f x \<noteq> f y"
      using False by (metis image_eqI)
    ultimately show ?thesis
      unfolding step using False by (simp add: addToGroup_map firstSeen_snoc)
  qed
qed

lemma groupBy_nonempty: "xs \<noteq> [] \<Longrightarrow> groupBy f xs \<noteq> []"
  by (cases xs) (simp_all add: groupBy_closed)

lemma set_objectEntries [simp]: "set (objectEntries gs) = set gs"
  by (auto simp: objectEntries_def)

lemma length_objectEntries [simp]: "length (objectEntries gs) = length gs"
  by (simp add: objectEntries_def sum_length_filter_compl)

lemma objectEntries_no_index:
  "\<forall>g \<in> set gs. \<not> isArrayIndex (fst g) \<Longrightarrow> objectEntries gs = gs"
  by (simp add: objectEntries_def filter_empty_conv[THEN iffD2])

lemma segmented_nonempty: "chunks \<noteq> [] \<Longrightarrow> segmented chunks \<noteq> []"
  using groupBy_nonempty [of chunks session] length_objectEntries [of "groupBy session chunks"]
  by (auto simp: segmented_def simp del: length_objectEntries)

lemma segmented_set:
  "set (segmented chunks) =
     (\<lambda>k. (k, sort_key chunk_timestamp (filter (\<lambda>c. session c = k) chunks))) ` session ` set chunks"
  by (auto simp: segmented_def groupBy_closed image_iff)

lemma distinct_objectEntries:
  "distinct (map fst gs) \<Longrightarrow> distinct (map fst (objectEntries gs))"
  by (auto simp: objectEntries_def distinct_map_filter distinct_map inj_on_def)

lemma map_insort_key: "map f (insort_key f x xs) = insort (f x) (map f xs)"
  by (induction xs) auto

lemma map_sort_key: "map f (sort_key f xs) = sort (map f xs)"
  by (induction xs) (auto simp: map_insort_key)

lemma hd_filter_in:
  "k \<in> f ` set xs \<Longrightarrow> hd (filter (\<lambda>y. f y = k) xs) \<in> set xs"
proof -
  assume "k \<in> f ` set xs"
  then have "filter (\<lambda>y. f y = k) xs \<noteq> []"
    by (auto simp: filter_empty_conv)
  then have "hd (filter (\<lambda>y. f y = k) xs) \<in> set (filter (\<lambda>y. f y = k) xs)"
    by (rule hd_in_set)
  then show ?thesis by simp
qed

lemma firsts_sorted:
  "sorted (map t xs) \<Longrightarrow>
     sorted (map (\<lambda>k. t (hd (filter (\<lambda>y. f y = k) xs))) (firstSeen (map f xs)))"
proof (induction xs)
  case Nil
  then show ?case by simp
next
  case (Cons x r)
  let ?rest = "removeAll (f x) (firstSeen (map f r))"
  have srt: "sorted (map t r)" and le: "\<forall>y \<in> set r. t x \<le> t y"
    using Cons.prems by simp_all
  have eq: "map (\<lambda>k. t (hd (filter (\<lambda>y. f y = k) (x # r)))) ?rest =
            map (\<lambda>k. t (hd (filter (\<lambda>y. f y = k) r))) ?rest"
    by (rule map_cong) auto
  have "sorted (map (\<lambda>k. t (hd (filter (\<lambda>y. f y = k) r))) (firstSeen (map f r)))"
    using srt by (rule Cons.IH)
  then have s: "sorted (map (\<lambda>k. t (hd (filter (\<lambda>y. f y = k) r))) ?rest)"
    unfolding removeAll_filter_not_eq by (rule sorted_filter)
  have le': "\<forall>k \<in> set ?rest. t x \<le> t (hd (filter (\<lambda>y. f y = k) r))"
  proof
    fix k assume "k \<in> set ?rest"
    then have "k \<in> f ` set r" by simp
    then have "hd (filter (\<lambda>y. f y = k) r) \<in> set r" by (rule hd_filter_in)
    with le show "t x \<le> t (hd (filter (\<lambda>y. f y = k) r))" by blast
  qed
  have "map (\<lambda>k. t (hd (filter (\<lambda>y. f y = k) (x # r)))) (firstSeen (map f (x # r))) =
      t x # map (\<lambda>k. t (hd (filter (\<lambda>y. f y = k) (x # r)))) ?rest"
    by simp
  then have full: "map (\<lambda>k. t (hd (filter (\<lambda>y. f y = k) (x # r)))) (firstSeen (map f (x # r))) =
      t x # map (\<lambda>k. t (hd (filter (\<lambda>y. f y = k) r))) ?rest"
    by (simp only: eq)
  have "sorted (t x # map (\<lambda>k. t (hd (filter (\<lambda>y. f y = k) r))) ?rest)"
    using s le' by (auto simp del: set_removeAll)
  then show ?case unfolding full .
qed

lemma segmented_closed:
  "segmented chunks =
     map (\<lambda>g. (fst g, sort_key chunk_timestamp (snd g)))
       (objectEntries (map (\<lambda>k. (k, filter (\<lambda>c. session c = k) chunks))
          (firstSeen (map session chunks))))"
  by (simp add: segmented_def groupBy_closed)

lemma segmented_keys:
  "map fst (segmented chunks) =
     sort (filter isArrayIndex (firstSeen (map session chunks))) @
     filter (\<lambda>k. \<not> isArrayIndex k) (firstSeen (map session chunks))"
proof -
  let ?gs = "map (\<lambda>k. (k, filter (\<lambda>c. session c = k) chunks)) (firstSeen (map session chunks))"
  have k: "map fst ?gs = firstSeen (map session chunks)"
    by (simp add: comp_def)
  have f1: "map fst (filter (\<lambda>g. isArrayIndex (fst g)) ?gs) = filter isArrayIndex (map fst ?gs)"
    and f2: "map fst (filter (\<lambda>g. \<not> isArrayIndex (fst g)) ?gs) =
             filter (\<lambda>k. \<not> isArrayIndex k) (map fst ?gs)"
    by (simp_all only: filter_map comp_def)
  have "map fst (segmented chunks) = map fst (objectEntries ?gs)"
    by (simp add: segmented_closed comp_def)
  also have "\<dots> = sort (map fst (filter (\<lambda>g. isArrayIndex (fst g)) ?gs)) @
                   map fst (filter (\<lambda>g. \<not> isArrayIndex (fst g)) ?gs)"
    by (simp only: objectEntries_def map_append map_sort_key)
  finally show ?thesis by (simp only: f1 f2 k)
qed

lemma segmented_sorted_firsts:
  assumes "\<forall>c \<in> set chunks. \<not> isArrayIndex (session c)" and "sorted (map chunk_timestamp chunks)"
  shows "sorted (map (\<lambda>s. chunk_timestamp (hd (snd s))) (segmented chunks))"
proof -
  let ?gs = "map (\<lambda>k. (k, filter (\<lambda>c. session c = k) chunks)) (firstSeen (map session chunks))"
  have "\<forall>g \<in> set ?gs. \<not> isArrayIndex (fst g)" using assms(1) by auto
  then have "objectEntries ?gs = ?gs" by (rule objectEntries_no_index)
  moreover have "sort_key chunk_timestamp (filter (\<lambda>c. session c = k) chunks) =
                   filter (\<lambda>c. session c = k) chunks" for k
    using assms(2) by (intro sort_key_id_if_sorted sorted_filter)
  ultimately have "map (\<lambda>s. chunk_timestamp (hd (snd s))) (segmented chunks) =
      map (\<lambda>k. chunk_timestamp (hd (filter (\<lambda>c. session c = k) chunks))) (firstSeen (map session chunks))"
    by (simp add: segmented_closed comp_def)
  with firsts_sorted [OF assms(2), of session] show ?thesis by simp
qed

text \<open>
  C9, as the code has it. For a collection of chunks that is not empty, \<open>segmented\<close> is a
  function of the collection that yields at least one session, one session for each
  session number, and each session holds the chunks of its number sorted by ascending
  timestamp, chunks of equal timestamp staying in the order of the collection. The sessions
  come in the order of \<open>Object.entries\<close>: the session numbers that are array indices first,
  ascending, then the others in the order of their first appearance in the collection. The
  sessions are not sorted by the timestamp of their first chunk; they are in that order
  when no session number is an array index and the collection itself is in ascending
  order of timestamp.
\<close>

theorem session_grouping:
  assumes "chunks \<noteq> []"
  shows "segmented chunks \<noteq> [] \<and>
         distinct (map fst (segmented chunks)) \<and>
         set (map fst (segmented chunks)) = session ` set chunks \<and>
         (\<forall>(k, cs) \<in> set (segmented chunks).
            cs \<noteq> [] \<and> sorted (map chunk_timestamp cs) \<and>
            cs = sort_key chunk_timestamp (filter (\<lambda>c. session c = k) chunks)) \<and>
         map fst (segmented chunks) =
           sort (filter isArrayIndex (firstSeen (map session chunks))) @
           filter (\<lambda>k. \<not> isArrayIndex k) (firstSeen (map session chunks)) \<and>
         ((\<forall>c \<in> set chunks. \<not> isArrayIndex (session c)) \<and> sorted (map chunk_timestamp chunks) \<longrightarrow>
            sorted (map (\<lambda>s. chunk_timestamp (hd (snd s))) (segmented chunks)))"
proof -
  have keys: "map fst (segmented chunks) =
           sort (filter isArrayIndex (firstSeen (map session chunks))) @
           filter (\<lambda>k. \<not> isArrayIndex k) (firstSeen (map session chunks))"
    by (rule segmented_keys)
  have d: "distinct (map fst (segmented chunks))"
    unfolding keys by (auto simp: distinct_filter)
  have s: "set (map fst (segmented chunks)) = session ` set chunks"
    unfolding keys by auto
  have m: "\<forall>(k, cs) \<in> set (segmented chunks).
            cs \<noteq> [] \<and> sorted (map chunk_timestamp cs) \<and>
            cs = sort_key chunk_timestamp (filter (\<lambda>c. session c = k) chunks)"
  proof (clarify, intro conjI)
    fix k cs assume "(k, cs) \<in> set (segmented chunks)"
    then obtain c where c: "c \<in> set chunks" "k = session c"
      and cs: "cs = sort_key chunk_timestamp (filter (\<lambda>c. session c = k) chunks)"
      by (auto simp: segmented_set)
    show "cs = sort_key chunk_timestamp (filter (\<lambda>c. session c = k) chunks)" by (rule cs)
    show "sorted (map chunk_timestamp cs)" unfolding cs by (rule sorted_sort_key)
    have "c \<in> set cs" using c cs by simp
    then show "cs \<noteq> []" by auto
  qed
  from segmented_nonempty [OF assms] d s m keys segmented_sorted_firsts [of chunks]
  show ?thesis by blast
qed

lemmas grouping_defs = segmented_def objectEntries_def groupBy_def isArrayIndex_def

theorem session_grouping_witness:
  "chunks_in_order \<noteq> [] \<and>
   list_all (\<lambda>c. \<not> isArrayIndex (session c)) chunks_in_order \<and>
   sorted (map chunk_timestamp chunks_in_order) \<and>
   segmented chunks_in_order =
     [(1700000000001, [\<lparr>session = 1700000000001, chunk_timestamp = 100, data = [1]\<rparr>,
                       \<lparr>session = 1700000000001, chunk_timestamp = 200, data = [2]\<rparr>]),
      (1700000000002, [\<lparr>session = 1700000000002, chunk_timestamp = 300, data = [3]\<rparr>])] \<and>
   sorted (map (\<lambda>s. chunk_timestamp (hd (snd s))) (segmented chunks_in_order))"
proof -
  have ne: "chunks_in_order \<noteq> []"
    by (simp add: chunks_in_order_def)
  have idx: "\<forall>c \<in> set chunks_in_order. \<not> isArrayIndex (session c)"
    by (simp add: chunks_in_order_def isArrayIndex_def)
  have srt: "sorted (map chunk_timestamp chunks_in_order)"
    by (simp add: chunks_in_order_def)
  have seg: "segmented chunks_in_order =
     [(1700000000001, [\<lparr>session = 1700000000001, chunk_timestamp = 100, data = [1]\<rparr>,
                       \<lparr>session = 1700000000001, chunk_timestamp = 200, data = [2]\<rparr>]),
      (1700000000002, [\<lparr>session = 1700000000002, chunk_timestamp = 300, data = [3]\<rparr>])]"
    by (simp add: grouping_defs chunks_in_order_def)
  from session_grouping [OF ne] idx srt
  have "sorted (map (\<lambda>s. chunk_timestamp (hd (snd s))) (segmented chunks_in_order))"
    by blast
  moreover have "list_all (\<lambda>c. \<not> isArrayIndex (session c)) chunks_in_order"
    using idx by (simp only: list_all_iff)
  ultimately show ?thesis using ne srt seg by (simp only: simp_thms)
qed

text \<open>The claim as the specification words it fails on a collection that lists a chunk
  of the later session first: that session comes first in the result, before the session
  whose first chunk is older; within the session the chunks are sorted.\<close>

theorem sessions_not_sorted_counterexample:
  "segmented chunks_later_first =
     [(1700000000002, [\<lparr>session = 1700000000002, chunk_timestamp = 300, data = [3]\<rparr>]),
      (1700000000001, [\<lparr>session = 1700000000001, chunk_timestamp = 100, data = [1]\<rparr>,
                       \<lparr>session = 1700000000001, chunk_timestamp = 200, data = [2]\<rparr>])] \<and>
   \<not> sorted (map (\<lambda>s. chunk_timestamp (hd (snd s))) (segmented chunks_later_first))"
  by (simp add: grouping_defs chunks_later_first_def)

subsection \<open>The failures of the assembly\<close>

lemma processInput_sameTimeline:
  "sameTimeline s s' \<Longrightarrow>
     fst (processInput cr src v s') = fst (processInput cr src v s) \<and>
     sameTimeline (snd (processInput cr src v s)) (snd (processInput cr src v s'))"
  by (auto simp: processInput_def Let_def sameTimeline_def split: option.splits)

lemma processInputs_sameTimeline:
  "sameTimeline s s' \<Longrightarrow>
     fst (processInputs cr src vs s') = fst (processInputs cr src vs s) \<and>
     sameTimeline (snd (processInputs cr src vs s)) (snd (processInputs cr src vs s'))"
proof (induction vs arbitrary: s s')
  case Nil
  then show ?case by simp
next
  case (Cons v vs)
  from processInput_sameTimeline [OF Cons.prems, of cr src v]
  have f: "fst (processInput cr src v s') = fst (processInput cr src v s)"
    and r: "sameTimeline (snd (processInput cr src v s)) (snd (processInput cr src v s'))"
    by simp_all
  show ?case
  proof (cases "fst (processInput cr src v s)")
    case None
    with f r Cons.IH [OF r] show ?thesis
      by (cases "processInput cr src v s"; cases "processInput cr src v s'") simp
  next
    case (Some e)
    with f r show ?thesis
      by (cases "processInput cr src v s"; cases "processInput cr src v s'") simp
  qed
qed

lemma tracks_of_tracked:
  "inputPrimaryTracks env (filter (\<lambda>b. getPrimaryVideoTrack env b \<noteq> None) streams) =
     inputPrimaryTracks env streams"
  by (induction streams) (auto simp: inputPrimaryTracks_def)

lemma tracks_nonempty_streams: "inputPrimaryTracks env streams \<noteq> [] \<Longrightarrow> streams \<noteq> []"
  by (auto simp: inputPrimaryTracks_def)

lemma videoConcat_drops_trackless:
  assumes "inputPrimaryTracks env streams \<noteq> []"
  shows "fst (videoConcat env (filter (\<lambda>b. getPrimaryVideoTrack env b \<noteq> None) streams)) =
           fst (videoConcat env streams) \<and>
         sameTimeline (snd (videoConcat env streams))
           (snd (videoConcat env (filter (\<lambda>b. getPrimaryVideoTrack env b \<noteq> None) streams)))"
proof -
  let ?streams' = "filter (\<lambda>b. getPrimaryVideoTrack env b \<noteq> None) streams"
  let ?tracks = "inputPrimaryTracks env streams"
  let ?src = "chosenSource env ?tracks"
  let ?cr = "canRemux (hd ?tracks) ?tracks"
  let ?s = "(probed env streams)\<lparr>videoTrack := Some ?src\<rparr>"
  let ?s' = "(probed env ?streams')\<lparr>videoTrack := Some ?src\<rparr>"
  have tr: "inputPrimaryTracks env ?streams' = ?tracks" by (rule tracks_of_tracked)
  have ne: "streams \<noteq> []" using assms by (rule tracks_nonempty_streams)
  have ne': "?streams' \<noteq> []" using assms tr tracks_nonempty_streams by metis
  show ?thesis
  proof (cases "falsy (negotiatedCodec env ?tracks)")
    case True
    with assms ne ne' show ?thesis
      unfolding videoConcat_unfold [of env streams] videoConcat_unfold [of env ?streams'] tr
      by (simp add: sameTimeline_def probed_def initial_state_def)
  next
    case False
    have same: "sameTimeline ?s ?s'"
      by (simp add: sameTimeline_def probed_def initial_state_def)
    from processInputs_sameTimeline [OF same, of ?cr ?src ?tracks]
    have f: "fst (processInputs ?cr ?src ?tracks ?s') = fst (processInputs ?cr ?src ?tracks ?s)"
      and r: "sameTimeline (snd (processInputs ?cr ?src ?tracks ?s))
                (snd (processInputs ?cr ?src ?tracks ?s'))"
      by simp_all
    obtain x t where run: "processInputs ?cr ?src ?tracks ?s = (x, t)"
      by (cases "processInputs ?cr ?src ?tracks ?s")
    obtain x' t' where run': "processInputs ?cr ?src ?tracks ?s' = (x', t')"
      by (cases "processInputs ?cr ?src ?tracks ?s'")
    from f r run run' have x: "x' = x" and t: "sameTimeline t t'" by simp_all
    then have em: "emitted t' = emitted t" by (simp add: sameTimeline_def)
    have u: "videoConcat env streams =
        (case x of Some e \<Rightarrow> (Inl e, t)
         | None \<Rightarrow> (case finalizedBuffer env ?src (concat (emitted t)) of
               None \<Rightarrow> (Inl BufferNull, t\<lparr>finalized := True, disposed := [0 ..< length streams]\<rparr>)
             | Some b \<Rightarrow> (Inr b, t\<lparr>finalized := True, disposed := [0 ..< length streams]\<rparr>)))"
      using False assms ne run by (simp add: videoConcat_unfold split: option.splits)
    have u': "videoConcat env ?streams' =
        (case x of Some e \<Rightarrow> (Inl e, t')
         | None \<Rightarrow> (case finalizedBuffer env ?src (concat (emitted t)) of
               None \<Rightarrow> (Inl BufferNull, t'\<lparr>finalized := True, disposed := [0 ..< length ?streams']\<rparr>)
             | Some b \<Rightarrow> (Inr b, t'\<lparr>finalized := True, disposed := [0 ..< length ?streams']\<rparr>)))"
      using False assms ne' run' x em unfolding videoConcat_unfold [of env ?streams'] tr
      by (simp split: option.splits)
    show ?thesis unfolding u u' using t by (auto simp: sameTimeline_def split: option.splits)
  qed
qed

lemma processInput_null_warnings:
  "processInput cr src v s = (x, s') \<Longrightarrow>
     filter (\<lambda>w. w = NullPrimaryTrack) (warnings s') = filter (\<lambda>w. w = NullPrimaryTrack) (warnings s)"
  by (auto simp: processInput_def Let_def rebase_init_skipped zeroDurationWarning_def
      filter_empty_conv split: if_splits)

lemma processInputs_null_warnings:
  "filter (\<lambda>w. w = NullPrimaryTrack) (warnings (snd (processInputs cr src tracks st))) =
     filter (\<lambda>w. w = NullPrimaryTrack) (warnings st)"
  by (rule processInputs_invariant [where P = "\<lambda>s. filter (\<lambda>w. w = NullPrimaryTrack) (warnings s) =
        filter (\<lambda>w. w = NullPrimaryTrack) (warnings st)"])
     (auto dest: processInput_null_warnings)

lemma videoConcat_null_warnings:
  assumes "streams \<noteq> []"
  shows "length (filter (\<lambda>w. w = NullPrimaryTrack) (warnings (snd (videoConcat env streams)))) =
         length (filter (\<lambda>b. getPrimaryVideoTrack env b = None) streams)"
proof -
  let ?tracks = "inputPrimaryTracks env streams"
  let ?src = "chosenSource env ?tracks"
  let ?cr = "canRemux (hd ?tracks) ?tracks"
  let ?s = "(probed env streams)\<lparr>videoTrack := Some ?src\<rparr>"
  have p: "length (filter (\<lambda>w. w = NullPrimaryTrack) (warnings (probed env streams))) =
           length (filter (\<lambda>b. getPrimaryVideoTrack env b = None) streams)"
    by (simp add: probed_def nullTrackWarnings_def filter_map comp_def)
  obtain x t where run: "processInputs ?cr ?src ?tracks ?s = (x, t)"
    by (cases "processInputs ?cr ?src ?tracks ?s")
  with processInputs_null_warnings [of ?cr ?src ?tracks ?s]
  have "filter (\<lambda>w. w = NullPrimaryTrack) (warnings t) =
        filter (\<lambda>w. w = NullPrimaryTrack) (warnings (probed env streams))"
    by simp
  with p run assms show ?thesis
    by (auto simp: videoConcat_unfold split: option.splits)
qed

lemma mergeVideoSessions_unfold:
  "mergeVideoSessions env chunks =
     (if chunks = [] then (Inl NoChunks, initial_state)
      else videoConcat env (streamsOf (segmented chunks)))"
  using segmented_nonempty [of chunks] by (simp add: mergeVideoSessions_def Let_def)

lemma streamsOf_nonempty: "chunks \<noteq> [] \<Longrightarrow> streamsOf (segmented chunks) \<noteq> []"
  using segmented_nonempty [of chunks] by (simp add: streamsOf_def)

text \<open>
  C4, as the code has it. In a run in which every call into the media library returns
  (the environment answers each of them; a call that rejects is a further way to fail,
  which the functions above do not have), \<open>mergeVideoSessions\<close> fails in exactly five
  cases, tried in this order: no chunk at all; no session with a primary video track; no
  codec that can be encoded at the coded size of the first surviving track; a surviving
  track without a decoder configuration; a \<open>null\<close> buffer after finalization. In every
  other case it returns the buffer. The guards on an empty segmentation, on an empty list
  of inputs and on the kind of the source never fire. A session without a primary video
  track is dropped with one warning: as long as another session has a track, the run has
  the outcome, and emits the units, of the run over the sessions that have one. The code
  does not ask whether a track is decodable before it assembles.
\<close>

theorem assembly_failures:
  assumes "mergeVideoSessions env chunks = (r, st)"
  shows "(r = Inl NoChunks \<longleftrightarrow> chunks = []) \<and>
         (r = Inl NoPrimaryTracks \<longleftrightarrow> chunks \<noteq> [] \<and> sessionTracks env chunks = []) \<and>
         (r = Inl NoVideoEncoding \<longleftrightarrow>
            chunks \<noteq> [] \<and> sessionTracks env chunks \<noteq> [] \<and>
            falsy (negotiatedCodec env (sessionTracks env chunks))) \<and>
         (r = Inl NoDecoderConfig \<longleftrightarrow>
            chunks \<noteq> [] \<and> sessionTracks env chunks \<noteq> [] \<and>
            \<not> falsy (negotiatedCodec env (sessionTracks env chunks)) \<and>
            (\<exists>t \<in> set (sessionTracks env chunks). decoderConfig t = None)) \<and>
         (r = Inl BufferNull \<longleftrightarrow>
            chunks \<noteq> [] \<and> sessionTracks env chunks \<noteq> [] \<and>
            \<not> falsy (negotiatedCodec env (sessionTracks env chunks)) \<and>
            (\<forall>t \<in> set (sessionTracks env chunks). decoderConfig t \<noteq> None) \<and>
            finalizedBuffer env (chosenSource env (sessionTracks env chunks)) (concat (emitted st)) = None) \<and>
         ((\<exists>b. r = Inr b) \<longleftrightarrow>
            chunks \<noteq> [] \<and> sessionTracks env chunks \<noteq> [] \<and>
            \<not> falsy (negotiatedCodec env (sessionTracks env chunks)) \<and>
            (\<forall>t \<in> set (sessionTracks env chunks). decoderConfig t \<noteq> None) \<and>
            finalizedBuffer env (chosenSource env (sessionTracks env chunks)) (concat (emitted st)) \<noteq> None) \<and>
         r \<noteq> Inl EmptySegmentation \<and> r \<noteq> Inl NoInputs \<and>
         r \<noteq> Inl SourceNotPacketSource \<and> r \<noteq> Inl SourceNotSampleSource \<and>
         (chunks \<noteq> [] \<longrightarrow>
            length (filter (\<lambda>w. w = NullPrimaryTrack) (warnings st)) =
            length (filter (\<lambda>b. getPrimaryVideoTrack env b = None) (streamsOf (segmented chunks)))) \<and>
         (sessionTracks env chunks \<noteq> [] \<longrightarrow>
            fst (videoConcat env
                   (filter (\<lambda>b. getPrimaryVideoTrack env b \<noteq> None) (streamsOf (segmented chunks)))) =
              fst (videoConcat env (streamsOf (segmented chunks))) \<and>
            emitted (snd (videoConcat env
                   (filter (\<lambda>b. getPrimaryVideoTrack env b \<noteq> None) (streamsOf (segmented chunks))))) =
              emitted (snd (videoConcat env (streamsOf (segmented chunks)))))"
proof (cases "chunks = []")
  case True
  with assms show ?thesis
    by (auto simp: mergeVideoSessions_unfold sessionTracks_def segmented_def groupBy_def
          objectEntries_def streamsOf_def inputPrimaryTracks_def)
next
  case False
  let ?streams = "streamsOf (segmented chunks)"
  let ?T = "sessionTracks env chunks"
  have run: "videoConcat env ?streams = (r, st)"
    using assms False by (simp add: mergeVideoSessions_unfold)
  have ne: "?streams \<noteq> []" using False by (rule streamsOf_nonempty)
  have T: "inputPrimaryTracks env ?streams = ?T" by (simp add: sessionTracks_def)
  have fst_run: "fst (videoConcat env ?streams) = r" and snd_run: "snd (videoConcat env ?streams) = st"
    using run by simp_all
  have r: "r =
     (if ?T = [] then Inl NoPrimaryTracks
      else if falsy (negotiatedCodec env ?T) then Inl NoVideoEncoding
      else if \<exists>t \<in> set ?T. decoderConfig t = None then Inl NoDecoderConfig
      else (case finalizedBuffer env (chosenSource env ?T) (concat (emitted st)) of
              None \<Rightarrow> Inl BufferNull
            | Some b \<Rightarrow> Inr b))"
    using videoConcat_outcome [of env ?streams] ne unfolding T fst_run snd_run by simp
  have outcome: "(r = Inl NoChunks \<longleftrightarrow> chunks = []) \<and>
         (r = Inl NoPrimaryTracks \<longleftrightarrow> chunks \<noteq> [] \<and> ?T = []) \<and>
         (r = Inl NoVideoEncoding \<longleftrightarrow> chunks \<noteq> [] \<and> ?T \<noteq> [] \<and> falsy (negotiatedCodec env ?T)) \<and>
         (r = Inl NoDecoderConfig \<longleftrightarrow>
            chunks \<noteq> [] \<and> ?T \<noteq> [] \<and> \<not> falsy (negotiatedCodec env ?T) \<and>
            (\<exists>t \<in> set ?T. decoderConfig t = None)) \<and>
         (r = Inl BufferNull \<longleftrightarrow>
            chunks \<noteq> [] \<and> ?T \<noteq> [] \<and> \<not> falsy (negotiatedCodec env ?T) \<and>
            (\<forall>t \<in> set ?T. decoderConfig t \<noteq> None) \<and>
            finalizedBuffer env (chosenSource env ?T) (concat (emitted st)) = None) \<and>
         ((\<exists>b. r = Inr b) \<longleftrightarrow>
            chunks \<noteq> [] \<and> ?T \<noteq> [] \<and> \<not> falsy (negotiatedCodec env ?T) \<and>
            (\<forall>t \<in> set ?T. decoderConfig t \<noteq> None) \<and>
            finalizedBuffer env (chosenSource env ?T) (concat (emitted st)) \<noteq> None) \<and>
         r \<noteq> Inl EmptySegmentation \<and> r \<noteq> Inl NoInputs \<and>
         r \<noteq> Inl SourceNotPacketSource \<and> r \<noteq> Inl SourceNotSampleSource"
    using False by (subst (1 2 3 4 5 6 7 8 9 10) r) (auto split: option.splits)
  have w: "length (filter (\<lambda>w. w = NullPrimaryTrack) (warnings st)) =
            length (filter (\<lambda>b. getPrimaryVideoTrack env b = None) ?streams)"
    using videoConcat_null_warnings [OF ne, of env] run by simp
  have d: "fst (videoConcat env (filter (\<lambda>b. getPrimaryVideoTrack env b \<noteq> None) ?streams)) =
              fst (videoConcat env ?streams) \<and>
            emitted (snd (videoConcat env (filter (\<lambda>b. getPrimaryVideoTrack env b \<noteq> None) ?streams))) =
              emitted (snd (videoConcat env ?streams))"
    if "?T \<noteq> []"
    using videoConcat_drops_trackless [of env ?streams] that unfolding T
    by (simp add: sameTimeline_def)
  from outcome w d show ?thesis by blast
qed

lemmas merge_defs = mergeVideoSessions_def streamsOf_def grouping_defs chunks_in_order_def run_defs

theorem assembly_failures_witness:
  "mergeVideoSessions (example_env one_trackless) chunks_in_order =
     (Inr [0, 0],
      \<lparr>opened = [0, 1], warnings = [NullPrimaryTrack], alerted = False,
       videoTrack = Some (EncodedVideoPacketSource (Some ''avc'')),
       globalTimeOffset = 1 / 60,
       emitted = [ [unit_at 0 (1 / 60), unit_at (1 / 60) (1 / 60)] ],
       finalized = True, disposed = [0, 1]\<rparr>) \<and>
   chunks_in_order \<noteq> [] \<and>
   streamsOf (segmented chunks_in_order) = [ [1, 2], [3] ] \<and>
   sessionTracks (example_env one_trackless) chunks_in_order =
     [example_track [unit_at 0 1, unit_at 1 1] ] \<and>
   length (filter (\<lambda>b. getPrimaryVideoTrack (example_env one_trackless) b = None)
             (streamsOf (segmented chunks_in_order))) = 1 \<and>
   fst (videoConcat (example_env one_trackless)
          (filter (\<lambda>b. getPrimaryVideoTrack (example_env one_trackless) b \<noteq> None)
             (streamsOf (segmented chunks_in_order)))) =
     fst (videoConcat (example_env one_trackless) (streamsOf (segmented chunks_in_order)))"
proof -
  let ?env = "example_env one_trackless"
  let ?st = "\<lparr>opened = [0, 1], warnings = [NullPrimaryTrack], alerted = False,
       videoTrack = Some (EncodedVideoPacketSource (Some ''avc'')),
       globalTimeOffset = 1 / 60,
       emitted = [ [unit_at 0 (1 / 60), unit_at (1 / 60) (1 / 60)] ],
       finalized = True, disposed = [0, 1]\<rparr>"
  have run: "mergeVideoSessions ?env chunks_in_order = (Inr [0, 0], ?st)"
    by (simp add: merge_defs one_trackless_def)
  have ne: "chunks_in_order \<noteq> []"
    by (simp add: chunks_in_order_def)
  have streams: "streamsOf (segmented chunks_in_order) = [ [1, 2], [3] ]"
    by (simp add: streamsOf_def grouping_defs chunks_in_order_def)
  have tracks: "sessionTracks ?env chunks_in_order = [example_track [unit_at 0 1, unit_at 1 1] ]"
    unfolding sessionTracks_def streams
    by (simp add: inputPrimaryTracks_def example_env_def one_trackless_def)
  then have tracks_ne: "sessionTracks ?env chunks_in_order \<noteq> []"
    by simp
  have w: "length (filter (\<lambda>w. w = NullPrimaryTrack) (warnings ?st)) = 1"
    by simp
  note facts = assembly_failures [OF run]
  from facts ne w
  have dropped: "length (filter (\<lambda>b. getPrimaryVideoTrack ?env b = None)
             (streamsOf (segmented chunks_in_order))) = 1"
    by metis
  from facts tracks_ne
  have same: "fst (videoConcat ?env
          (filter (\<lambda>b. getPrimaryVideoTrack ?env b \<noteq> None) (streamsOf (segmented chunks_in_order)))) =
     fst (videoConcat ?env (streamsOf (segmented chunks_in_order)))"
    by blast
  from run ne streams tracks dropped same show ?thesis
    by (simp only: simp_thms)
qed

text \<open>The claim as the specification words it fails on a session whose track has no
  decoder configuration: there are chunks, the session has a track and a codec can be
  encoded, yet the run fails, before finalization, with a fifth error.\<close>

theorem fifth_failure_counterexample:
  "chunks_in_order \<noteq> [] \<and>
   sessionTracks (example_env unconfigured) chunks_in_order \<noteq> [] \<and>
   \<not> falsy (negotiatedCodec (example_env unconfigured)
              (sessionTracks (example_env unconfigured) chunks_in_order)) \<and>
   mergeVideoSessions (example_env unconfigured) chunks_in_order =
     (Inl NoDecoderConfig,
      \<lparr>opened = [0, 1], warnings = [], alerted = False,
       videoTrack = Some (EncodedVideoPacketSource (Some ''avc'')),
       globalTimeOffset = 0, emitted = [], finalized = False, disposed = []\<rparr>)"
  by (simp add: merge_defs sessionTracks_def negotiatedCodec_def unconfigured_def)

subsection \<open>Thumbnails\<close>

text \<open>
  C8, as the code has it. \<open>videoGenerateThumbnail\<close> always returns a blob. It calls the
  primary tier first; the fallback tier only when the primary one has thrown; and
  \<open>getBlackImage\<close> only when both have thrown, returning the result of the first tier that
  succeeds. When both extraction tiers fail, the result is the JPEG encoding of a canvas
  of \<open>THUMBNAIL_SIZE\<close> (640) by \<open>THUMBNAIL_SIZE\<close>, filled with \<open>#000000\<close> if a 2D context
  could be had and left untouched otherwise, provided \<open>canvas.toBlob\<close> yields a blob; when
  \<open>toBlob\<close> yields \<open>null\<close> the result is the empty \<open>image/jpeg\<close> blob, not an image.
\<close>

theorem thumbnail_never_raises:
  "(\<exists>b. snd (videoGenerateThumbnail env videoBlob) = Inr b) \<and>
   (\<forall>b. makeThumbnail env videoBlob = Inr b \<longrightarrow>
      videoGenerateThumbnail env videoBlob = ([Primary], Inr b)) \<and>
   (\<forall>e b. makeThumbnail env videoBlob = Inl e \<and> makeFallbackThumbnail env videoBlob = Inr b \<longrightarrow>
      videoGenerateThumbnail env videoBlob = ([Primary, Fallback], Inr b)) \<and>
   (\<forall>e e'. makeThumbnail env videoBlob = Inl e \<and> makeFallbackThumbnail env videoBlob = Inl e' \<longrightarrow>
      fst (videoGenerateThumbnail env videoBlob) = [Primary, Fallback, LastResort] \<and>
      (context2d env \<and> toBlob env \<lparr>width = 640, height = 640, picture = Filled ''#000000''\<rparr> \<longrightarrow>
         snd (videoGenerateThumbnail env videoBlob) =
           Inr (Jpeg \<lparr>width = 640, height = 640, picture = Filled ''#000000''\<rparr>)) \<and>
      (\<not> context2d env \<and> toBlob env \<lparr>width = 640, height = 640, picture = Blank\<rparr> \<longrightarrow>
         snd (videoGenerateThumbnail env videoBlob) =
           Inr (Jpeg \<lparr>width = 640, height = 640, picture = Blank\<rparr>)) \<and>
      (\<not> toBlob env \<lparr>width = 640, height = 640,
                      picture = (if context2d env then Filled ''#000000'' else Blank)\<rparr> \<longrightarrow>
         snd (videoGenerateThumbnail env videoBlob) = Inr EmptyJpeg))"
  by (cases "makeThumbnail env videoBlob"; cases "makeFallbackThumbnail env videoBlob")
     (auto simp: videoGenerateThumbnail_def getBlackImage_def Let_def THUMBNAIL_SIZE_def)

lemmas thumb_defs = videoGenerateThumbnail_def makeThumbnail_def makeFallbackThumbnail_def
  getBlackImage_def Let_def THUMBNAIL_SIZE_def broken_browser_def

theorem thumbnail_never_raises_witness:
  "makeThumbnail (broken_browser True) [] = Inl NoVideoTrack \<and>
   makeFallbackThumbnail (broken_browser True) [] = Inl VideoLoadFailed \<and>
   context2d (broken_browser True) \<and>
   toBlob (broken_browser True) \<lparr>width = 640, height = 640, picture = Filled ''#000000''\<rparr> \<and>
   videoGenerateThumbnail (broken_browser True) [] =
     ([Primary, Fallback, LastResort],
      Inr (Jpeg \<lparr>width = 640, height = 640, picture = Filled ''#000000''\<rparr>))"
proof -
  let ?env = "broken_browser True"
  have p: "makeThumbnail ?env [] = Inl NoVideoTrack"
    by (simp add: thumb_defs)
  have f: "makeFallbackThumbnail ?env [] = Inl VideoLoadFailed"
    by (simp add: thumb_defs)
  have c: "context2d ?env"
    and t: "toBlob ?env \<lparr>width = 640, height = 640, picture = Filled ''#000000''\<rparr>"
    by (simp_all add: broken_browser_def)
  from thumbnail_never_raises [of ?env "[]"] p f c t
  have "fst (videoGenerateThumbnail ?env []) = [Primary, Fallback, LastResort]"
    and "snd (videoGenerateThumbnail ?env []) =
           Inr (Jpeg \<lparr>width = 640, height = 640, picture = Filled ''#000000''\<rparr>)"
    by blast+
  then have "videoGenerateThumbnail ?env [] =
     ([Primary, Fallback, LastResort],
      Inr (Jpeg \<lparr>width = 640, height = 640, picture = Filled ''#000000''\<rparr>))"
    by (simp add: prod_eq_iff)
  with p f c t show ?thesis by (simp only: simp_thms)
qed

text \<open>The claim as the specification words it fails where the canvas cannot be encoded
  either: all three tiers fail and the caller receives the empty blob, which is not the
  JPEG of a black canvas.\<close>

theorem thumbnail_not_black_counterexample:
  "makeThumbnail (broken_browser False) [] = Inl NoVideoTrack \<and>
   makeFallbackThumbnail (broken_browser False) [] = Inl VideoLoadFailed \<and>
   videoGenerateThumbnail (broken_browser False) [] =
     ([Primary, Fallback, LastResort], Inr EmptyJpeg) \<and>
   snd (videoGenerateThumbnail (broken_browser False) []) \<noteq>
     Inr (Jpeg \<lparr>width = 640, height = 640, picture = Filled ''#000000''\<rparr>)"
  by (simp add: thumb_defs)

end
